theory Spec2Isabelle
  imports Main "HOL-Library.AList" "HOL-Library.Char_ord" "HOL-Library.List_Lexorder"
begin

section \<open>The JSON abstract syntax tree\<close>

text \<open>
  The parser of \<^verbatim>\<open>parser.py\<close> emits the AST as nested Python dicts, lists and strings
  (numeric literals are kept as their text), and \<^verbatim>\<open>prover.py\<close> reads it with
  \<^verbatim>\<open>isinstance(t, dict)\<close>, \<^verbatim>\<open>t.get(..)\<close> and \<^verbatim>\<open>in\<close>. A node is therefore a JSON value:
  \<open>JNull\<close> is Python's \<^verbatim>\<open>None\<close>, an object is an association list read with \<open>map_of\<close>.
\<close>

datatype json = JNull | JStr string | JArr "json list" | JObj "(string \<times> json) list"

text \<open>\<^verbatim>\<open>d.get(k)\<close>: \<^verbatim>\<open>None\<close> when the key is absent (or holds \<^verbatim>\<open>None\<close>).\<close>

definition py_get :: "(string \<times> json) list \<Rightarrow> string \<Rightarrow> json" where
  "py_get d k = (case map_of d k of None \<Rightarrow> JNull | Some v \<Rightarrow> v)"

text \<open>\<^verbatim>\<open>d.get(k, [])\<close>: the empty list only when the key is absent.\<close>

definition py_get_list :: "(string \<times> json) list \<Rightarrow> string \<Rightarrow> json" where
  "py_get_list d k = (case map_of d k of None \<Rightarrow> JArr [] | Some v \<Rightarrow> v)"

text \<open>Python truthiness of a JSON value (\<^verbatim>\<open>if x:\<close>).\<close>

fun truthy :: "json \<Rightarrow> bool" where
  "truthy JNull = False"
| "truthy (JStr s) = (s \<noteq> [])"
| "truthy (JArr xs) = (xs \<noteq> [])"
| "truthy (JObj d) = (d \<noteq> [])"

text \<open>
  Iterating a JSON value (\<^verbatim>\<open>for x in v\<close>): a list gives its elements, a string its
  characters, a dict its keys; \<^verbatim>\<open>None\<close> is not iterable (\<open>None\<close> here: TypeError).
\<close>

fun py_iter :: "json \<Rightarrow> json list option" where
  "py_iter JNull = None"
| "py_iter (JStr s) = Some (map (\<lambda>c. JStr [c]) s)"
| "py_iter (JArr xs) = Some xs"
| "py_iter (JObj d) = Some (map JStr (remdups (map fst d)))"

text \<open>Lists and dicts are unhashable: using one as a dict key raises TypeError.\<close>

fun hashable :: "json \<Rightarrow> bool" where
  "hashable (JArr xs) = False"
| "hashable (JObj d) = False"
| "hashable v = True"

section \<open>The solver's terms\<close>

text \<open>
  Z3 is external. Its expressions are modelled as the syntax tree that the calls of the
  Python API build: \<open>ZInt n\<close> and \<open>ZReal n\<close> are \<^verbatim>\<open>Int(n)\<close> and \<^verbatim>\<open>Real(n)\<close>, \<open>ZRealVal v\<close> is
  \<^verbatim>\<open>RealVal(v)\<close>, \<open>ZIntVal\<close> a Python integer that Z3 coerces, \<open>ZBoolVal\<close> a Python bool.
\<close>

datatype zexpr =
    ZInt json | ZReal json | ZRealVal json | ZIntVal int | ZBoolVal bool
  | ZAdd zexpr zexpr | ZSub zexpr zexpr | ZMul zexpr zexpr | ZDiv zexpr zexpr
  | ZNeg zexpr | ZPow zexpr zexpr | ZIf zexpr zexpr zexpr
  | ZLt zexpr zexpr | ZLe zexpr zexpr | ZEq zexpr zexpr | ZNe zexpr zexpr
  | ZGt zexpr zexpr | ZGe zexpr zexpr
  | ZAnd "zexpr list" | ZOr "zexpr list" | ZNot zexpr | ZImplies zexpr zexpr
  | ZForAll "zexpr list" zexpr | ZExists "zexpr list" zexpr

text \<open>
  The exceptions of \<^verbatim>\<open>prover.py\<close>: \<^verbatim>\<open>TermError\<close>, \<^verbatim>\<open>FormulaError\<close>, and any other Python
  exception (TypeError, AttributeError, KeyError, a Z3 exception). The string is the
  fixed part of the message.
\<close>

datatype error = TermError string | FormulaError string | OtherError string

text \<open>The variable environment: a Python dict (insertion-ordered) from names to constants.\<close>

type_synonym env = "(json \<times> zexpr) list"

text \<open>\<^verbatim>\<open>var_types\<close>: a dict from variable names to \<^verbatim>\<open>'Int'\<close> or \<^verbatim>\<open>'Real'\<close>.\<close>

type_synonym var_types = "string \<Rightarrow> string option"

fun vt_get :: "var_types \<Rightarrow> json \<Rightarrow> string option" where
  "vt_get vt (JStr s) = vt s"
| "vt_get vt v = None"

text \<open>
  \<^verbatim>\<open>if var_types.get(name) == 'Int': Int(name) else: Real(name)\<close>, the one way in which
  \<^verbatim>\<open>prover.py\<close> creates a solver constant.
\<close>

definition mk_var :: "var_types \<Rightarrow> json \<Rightarrow> zexpr" where
  "mk_var vt name = (if vt_get vt name = Some ''Int'' then ZInt name else ZReal name)"

section \<open>The translator: \<^verbatim>\<open>term_to_z3\<close>\<close>

lemma size_map_of:
  "map_of kvs k = Some v \<Longrightarrow> size v < Suc (size_list (size_prod (\<lambda>_. 0) size) kvs)"
  by (induction kvs) (auto split: if_splits)

lemma size_map_of_arr:
  "map_of kvs k = Some (JArr (a # rest)) \<Longrightarrow>
   size a < Suc (size_list (size_prod (\<lambda>_. 0) size) kvs) \<and>
   size_list size rest < Suc (size_list (size_prod (\<lambda>_. 0) size) kvs)"
  using size_map_of [of kvs k "JArr (a # rest)"] by simp

text \<open>
  \<open>rv\<close> says which numeral values \<^verbatim>\<open>RealVal\<close> accepts (it raises on the others).
  \<open>min_max_loop\<close> is the loop \<^verbatim>\<open>for arg in args[1:]\<close> of the \<^verbatim>\<open>min\<close> and \<^verbatim>\<open>max\<close> branches
  (\<open>is_min\<close> selects \<^verbatim>\<open>result <= other\<close> or \<^verbatim>\<open>result >= other\<close>).
  The environment is threaded: the dict \<^verbatim>\<open>env\<close> is mutated in place by the source.
\<close>

function term_to_z3 :: "(json \<Rightarrow> bool) \<Rightarrow> var_types \<Rightarrow> json \<Rightarrow> env \<Rightarrow> error + zexpr \<times> env"
  and min_max_loop :: "(json \<Rightarrow> bool) \<Rightarrow> var_types \<Rightarrow> bool \<Rightarrow> json list \<Rightarrow> zexpr \<Rightarrow> env \<Rightarrow> error + zexpr \<times> env"
where
  "term_to_z3 rv vt JNull env = Inl (TermError ''Term must be an object'')"
| "term_to_z3 rv vt (JStr s) env = Inl (TermError ''Term must be an object'')"
| "term_to_z3 rv vt (JArr xs) env = Inl (TermError ''Term must be an object'')"
| "term_to_z3 rv vt (JObj t) env =
    (let ty = py_get t ''type'' in
     if ty = JNull then Inl (TermError ''Term missing type field'')
     else if ty = JStr ''num'' then
       (let v = py_get t ''value'' in
        if v = JNull then Inl (TermError ''Numeric term missing value field'')
        else if rv v then Inr (ZRealVal v, env)
        else Inl (OtherError ''RealVal''))
     else if ty = JStr ''var'' then
       (let name = py_get t ''name'' in
        if name = JNull then Inl (TermError ''Variable term missing name field'')
        else if \<not> hashable name then Inl (OtherError ''unhashable type'')
        else (case map_of env name of
                Some c \<Rightarrow> Inr (c, env)
              | None \<Rightarrow> Inr (mk_var vt name, AList.update name (mk_var vt name) env)))
     else if ty = JStr ''bin'' then
       (let op = py_get t ''op'' in
        if op = JNull then Inl (TermError ''Binary term missing op field'')
        else (case (map_of t ''lhs'', map_of t ''rhs'') of
                (Some l, Some r) \<Rightarrow>
                  (case term_to_z3 rv vt l env of
                     Inl e \<Rightarrow> Inl e
                   | Inr (a, env1) \<Rightarrow>
                      (case term_to_z3 rv vt r env1 of
                         Inl e \<Rightarrow> Inl e
                       | Inr (b, env2) \<Rightarrow>
                           if op = JStr ''+'' then Inr (ZAdd a b, env2)
                           else if op = JStr ''-'' then Inr (ZSub a b, env2)
                           else if op = JStr ''*'' then Inr (ZMul a b, env2)
                           else if op = JStr ''/'' then Inr (ZDiv a b, env2)
                           else Inl (TermError ''Unknown binary operator'')))
              | _ \<Rightarrow> Inl (TermError ''Binary term missing lhs or rhs field'')))
     else if ty = JStr ''abs'' then
       (case map_of t ''arg'' of
          None \<Rightarrow> Inl (TermError ''Abs term missing arg field'')
        | Some a \<Rightarrow>
           (case term_to_z3 rv vt a env of
              Inl e \<Rightarrow> Inl e
            | Inr (x, env1) \<Rightarrow> Inr (ZIf (ZGe x (ZIntVal 0)) x (ZNeg x), env1)))
     else if ty = JStr ''neg'' then
       (case map_of t ''arg'' of
          None \<Rightarrow> Inl (TermError ''Neg term missing arg field'')
        | Some a \<Rightarrow>
           (case term_to_z3 rv vt a env of
              Inl e \<Rightarrow> Inl e
            | Inr (x, env1) \<Rightarrow> Inr (ZNeg x, env1)))
     else if ty = JStr ''pow'' then
       (case (map_of t ''base'', map_of t ''exp'') of
          (Some b, Some x) \<Rightarrow>
            (case term_to_z3 rv vt b env of
               Inl e \<Rightarrow> Inl e
             | Inr (base, env1) \<Rightarrow>
                (case term_to_z3 rv vt x env1 of
                   Inl e \<Rightarrow> Inl e
                 | Inr (ex, env2) \<Rightarrow> Inr (ZPow base ex, env2)))
        | _ \<Rightarrow> Inl (TermError ''Pow term missing base or exp field''))
     else if ty = JStr ''sqrt'' then
       (case map_of t ''arg'' of
          None \<Rightarrow> Inl (TermError ''Sqrt term missing arg field'')
        | Some a \<Rightarrow>
           (case term_to_z3 rv vt a env of
              Inl e \<Rightarrow> Inl e
            | Inr (x, env1) \<Rightarrow> Inr (ZPow x (ZRealVal (JStr ''0.5'')), env1)))
     else if ty = JStr ''min'' \<or> ty = JStr ''max'' then
       (case py_get_list t ''args'' of
          JNull \<Rightarrow> Inl (OtherError ''object of type NoneType has no len()'')
        | JStr s \<Rightarrow>
            if length s < 2 then Inl (TermError ''Min/Max requires at least 2 arguments'')
            else Inl (TermError ''Term must be an object'')
        | JObj d \<Rightarrow>
            if length (remdups (map fst d)) < 2
            then Inl (TermError ''Min/Max requires at least 2 arguments'')
            else Inl (OtherError ''KeyError'')
        | JArr [] \<Rightarrow> Inl (TermError ''Min/Max requires at least 2 arguments'')
        | JArr (a # rest) \<Rightarrow>
            if rest = [] then Inl (TermError ''Min/Max requires at least 2 arguments'')
            else (case term_to_z3 rv vt a env of
                    Inl e \<Rightarrow> Inl e
                  | Inr (result, env1) \<Rightarrow>
                      min_max_loop rv vt (ty = JStr ''min'') rest result env1))
     else Inl (TermError ''Unknown term type''))"
| "min_max_loop rv vt is_min [] result env = Inr (result, env)"
| "min_max_loop rv vt is_min (arg # rest) result env =
    (case term_to_z3 rv vt arg env of
       Inl e \<Rightarrow> Inl e
     | Inr (other, env1) \<Rightarrow>
         min_max_loop rv vt is_min rest
           (if is_min then ZIf (ZLe result other) result other
            else ZIf (ZGe result other) result other) env1)"
  by pat_completeness auto
termination
  by (relation "measure (\<lambda>x. case x of
          Inl (rv, vt, t, env) \<Rightarrow> size t
        | Inr (rv, vt, is_min, args, result, env) \<Rightarrow> size_list size args)")
     (auto simp: py_get_list_def split: option.splits
           dest: size_map_of [OF sym] size_map_of size_map_of_arr [OF sym] size_map_of_arr)

section \<open>The translator: \<^verbatim>\<open>formula_to_z3\<close>\<close>

text \<open>
  The loop \<^verbatim>\<open>for name in var_names\<close> of the quantifier branches: every bound name gets
  a constant made as for a free variable and is written into the environment,
  \<^verbatim>\<open>env[name] = v\<close>; nothing restores the environment afterwards.
\<close>

fun bind_vars :: "var_types \<Rightarrow> json list \<Rightarrow> env \<Rightarrow> error + zexpr list \<times> env" where
  "bind_vars vt [] env = Inr ([], env)"
| "bind_vars vt (name # rest) env =
    (if \<not> hashable name then Inl (OtherError ''unhashable type'')
     else (case bind_vars vt rest (AList.update name (mk_var vt name) env) of
             Inl e \<Rightarrow> Inl e
           | Inr (vs, env1) \<Rightarrow> Inr (mk_var vt name # vs, env1)))"

text \<open>
  \<open>formulas_to_z3\<close> is the list comprehension
  \<^verbatim>\<open>[formula_to_z3(arg, env, var_types) for arg in args]\<close> of the \<^verbatim>\<open>and\<close> and \<^verbatim>\<open>or\<close> branches.
\<close>

function formula_to_z3 :: "(json \<Rightarrow> bool) \<Rightarrow> var_types \<Rightarrow> json \<Rightarrow> env \<Rightarrow> error + zexpr \<times> env"
  and formulas_to_z3 :: "(json \<Rightarrow> bool) \<Rightarrow> var_types \<Rightarrow> json list \<Rightarrow> env \<Rightarrow> error + zexpr list \<times> env"
where
  "formula_to_z3 rv vt JNull env = Inl (FormulaError ''Formula must be an object'')"
| "formula_to_z3 rv vt (JStr s) env = Inl (FormulaError ''Formula must be an object'')"
| "formula_to_z3 rv vt (JArr xs) env = Inl (FormulaError ''Formula must be an object'')"
| "formula_to_z3 rv vt (JObj f) env =
    (let ty = py_get f ''type'' in
     if ty = JNull then Inl (FormulaError ''Formula missing type field'')
     else if ty = JStr ''rel'' then
       (let op = py_get f ''op'' in
        if op = JNull then Inl (FormulaError ''Relational formula missing op field'')
        else (case (map_of f ''lhs'', map_of f ''rhs'') of
                (Some l, Some r) \<Rightarrow>
                  (case term_to_z3 rv vt l env of
                     Inl e \<Rightarrow> Inl e
                   | Inr (lhs, env1) \<Rightarrow>
                      (case term_to_z3 rv vt r env1 of
                         Inl e \<Rightarrow> Inl e
                       | Inr (rhs, env2) \<Rightarrow>
                           if op = JStr ''<'' then Inr (ZLt lhs rhs, env2)
                           else if op = JStr ''<='' then Inr (ZLe lhs rhs, env2)
                           else if op = JStr ''='' then Inr (ZEq lhs rhs, env2)
                           else if op = JStr ''!='' then Inr (ZNe lhs rhs, env2)
                           else if op = JStr ''>'' then Inr (ZGt lhs rhs, env2)
                           else if op = JStr ''>='' then Inr (ZGe lhs rhs, env2)
                           else Inl (FormulaError ''Unknown relational operator'')))
              | _ \<Rightarrow> Inl (FormulaError ''Relational formula missing lhs or rhs field'')))
     else if ty = JStr ''and'' \<or> ty = JStr ''or'' then
       (case py_get_list f ''args'' of
          JNull \<Rightarrow> Inl (OtherError ''object of type NoneType has no len()'')
        | JStr s \<Rightarrow>
            if s = [] then Inr (ZBoolVal (ty = JStr ''and''), env)
            else Inl (FormulaError ''Formula must be an object'')
        | JObj d \<Rightarrow>
            if d = [] then Inr (ZBoolVal (ty = JStr ''and''), env)
            else Inl (FormulaError ''Formula must be an object'')
        | JArr args \<Rightarrow>
            if args = [] then Inr (ZBoolVal (ty = JStr ''and''), env)
            else (case formulas_to_z3 rv vt args env of
                    Inl e \<Rightarrow> Inl e
                  | Inr (z3_args, env1) \<Rightarrow>
                      Inr (if ty = JStr ''and'' then ZAnd z3_args else ZOr z3_args, env1)))
     else if ty = JStr ''not'' then
       (case map_of f ''arg'' of
          None \<Rightarrow> Inl (FormulaError ''Not formula missing arg field'')
        | Some a \<Rightarrow>
           (case formula_to_z3 rv vt a env of
              Inl e \<Rightarrow> Inl e
            | Inr (inner, env1) \<Rightarrow> Inr (ZNot inner, env1)))
     else if ty = JStr ''implies'' then
       (case (map_of f ''lhs'', map_of f ''rhs'') of
          (Some l, Some r) \<Rightarrow>
            (case formula_to_z3 rv vt l env of
               Inl e \<Rightarrow> Inl e
             | Inr (lhs, env1) \<Rightarrow>
                (case formula_to_z3 rv vt r env1 of
                   Inl e \<Rightarrow> Inl e
                 | Inr (rhs, env2) \<Rightarrow> Inr (ZImplies lhs rhs, env2)))
        | _ \<Rightarrow> Inl (FormulaError ''Implies formula missing lhs or rhs field''))
     else if ty = JStr ''forall'' \<or> ty = JStr ''exists'' then
       (let var_names = py_get_list f ''vars'' in
        if \<not> truthy var_names then Inl (FormulaError ''Quantifier formula missing vars field'')
        else (case map_of f ''body'' of
                None \<Rightarrow> Inl (FormulaError ''Quantifier formula missing body field'')
              | Some b \<Rightarrow>
                 (case bind_vars vt (the (py_iter var_names)) env of
                    Inl e \<Rightarrow> Inl e
                  | Inr (quant_vars, env1) \<Rightarrow>
                     (case formula_to_z3 rv vt b env1 of
                        Inl e \<Rightarrow> Inl e
                      | Inr (body, env2) \<Rightarrow>
                          Inr (if ty = JStr ''forall'' then ZForAll quant_vars body
                               else ZExists quant_vars body, env2)))))
     else Inl (FormulaError ''Unknown formula type''))"
| "formulas_to_z3 rv vt [] env = Inr ([], env)"
| "formulas_to_z3 rv vt (arg # rest) env =
    (case formula_to_z3 rv vt arg env of
       Inl e \<Rightarrow> Inl e
     | Inr (z, env1) \<Rightarrow>
        (case formulas_to_z3 rv vt rest env1 of
           Inl e \<Rightarrow> Inl e
         | Inr (zs, env2) \<Rightarrow> Inr (z # zs, env2)))"
  by pat_completeness auto
termination
  by (relation "measure (\<lambda>x. case x of
          Inl (rv, vt, f, env) \<Rightarrow> size f
        | Inr (rv, vt, args, env) \<Rightarrow> Suc (size_list size args))")
     (auto simp: py_get_list_def split: option.splits
           dest: size_map_of [OF sym] size_map_of)

section \<open>The solver and the result records\<close>

datatype check_result = Sat | Unsat | Unknown

text \<open>
  What the driver needs of Z3: whether \<^verbatim>\<open>RealVal\<close> accepts a numeral, the answer of
  \<^verbatim>\<open>s.check()\<close> for the assertions added to a fresh \<^verbatim>\<open>Solver()\<close> (in the order of the
  \<^verbatim>\<open>s.add\<close> calls), and \<^verbatim>\<open>str(m.eval(v, model_completion=True))\<close> for the model \<^verbatim>\<open>m\<close> of
  those assertions. The solver is a parameter of everything below.
\<close>

record solver =
  realval_ok :: "json \<Rightarrow> bool"
  check :: "zexpr list \<Rightarrow> check_result"
  model_eval :: "zexpr list \<Rightarrow> zexpr \<Rightarrow> string"

text \<open>
  The values of which \<^verbatim>\<open>prove\<close> builds its result: a dict is an association list in
  insertion order, \<open>PModel\<close> the dict from variable names to value texts.
\<close>

datatype pyval =
    PBool bool | PInt int | PStr string
  | PModel "(json \<times> string) list"
  | PList "pyval list" | PDict "(string \<times> pyval) list"

text \<open>\<^verbatim>\<open>{name: str(m.eval(v, model_completion=True)) for name, v in env.items()}\<close>\<close>

definition model_out :: "solver \<Rightarrow> zexpr list \<Rightarrow> env \<Rightarrow> pyval" where
  "model_out S q env = PModel (map (\<lambda>(name, v). (name, model_eval S q v)) env)"

text \<open>
  \<^verbatim>\<open>format_counterexample\<close>: \<^verbatim>\<open>sorted(env.items())\<close> compares the names; \<^verbatim>\<open>None\<close> and a string
  do not compare (TypeError). \<open>name_str\<close> is \<^verbatim>\<open>str(name)\<close>, the line break is \<open>CHR 0x0A\<close>.
\<close>

fun name_str :: "json \<Rightarrow> string" where
  "name_str (JStr s) = s"
| "name_str v = ''None''"

definition format_counterexample :: "solver \<Rightarrow> zexpr list \<Rightarrow> env \<Rightarrow> error + string" where
  "format_counterexample S q env =
    (if JNull \<in> fst ` set env \<and> 2 \<le> length env
     then Inl (OtherError ''< not supported between instances'')
     else Inr (''Counterexample found:'' @
               concat (map (\<lambda>(name, v). [CHR 0x0A] @ ''  '' @ name_str name @ '' = '' @ model_eval S q v)
                           (sort_key (\<lambda>(name, v). name_str name) env))))"

text \<open>The two \<^verbatim>\<open>except\<close> clauses at the end of \<^verbatim>\<open>prove\<close>.\<close>

fun error_response :: "error \<Rightarrow> pyval" where
  "error_response (TermError m) =
     PDict [(''ok'', PBool False), (''status'', PStr ''error''), (''error'', PStr m)]"
| "error_response (FormulaError m) =
     PDict [(''ok'', PBool False), (''status'', PStr ''error''), (''error'', PStr m)]"
| "error_response (OtherError m) =
     PDict [(''ok'', PBool False), (''status'', PStr ''error''),
            (''error'', PStr (''Internal error: '' @ m))]"

section \<open>The driver: intermediate steps\<close>

text \<open>
  \<^verbatim>\<open>for a in assumptions: s.add(formula_to_z3(a, env.copy(), var_types))\<close>: every formula
  is translated in its own copy of the environment, so \<open>env\<close> itself stays as it is.
\<close>

definition translate_copy :: "solver \<Rightarrow> var_types \<Rightarrow> env \<Rightarrow> json \<Rightarrow> error + zexpr" where
  "translate_copy S vt env f =
    (case formula_to_z3 (realval_ok S) vt f env of Inl e \<Rightarrow> Inl e | Inr (z, env1) \<Rightarrow> Inr z)"

fun translate_all :: "solver \<Rightarrow> var_types \<Rightarrow> env \<Rightarrow> json list \<Rightarrow> error + zexpr list" where
  "translate_all S vt env [] = Inr []"
| "translate_all S vt env (a # rest) =
    (case translate_copy S vt env a of
       Inl e \<Rightarrow> Inl e
     | Inr z \<Rightarrow>
        (case translate_all S vt env rest of
           Inl e \<Rightarrow> Inl e
         | Inr zs \<Rightarrow> Inr (z # zs)))"

text \<open>
  The loop \<^verbatim>\<open>for cs in case_steps\<close> inside one case: a sub-step with a truthy formula is
  checked under \<open>case_assumptions\<close> and appended to them when the query is unsat. The
  result is the final \<open>case_assumptions\<close>, which the caller drops.
\<close>

fun case_steps_loop :: "solver \<Rightarrow> var_types \<Rightarrow> env \<Rightarrow> json list \<Rightarrow> json list \<Rightarrow> error + json list" where
  "case_steps_loop S vt env case_assumptions [] = Inr case_assumptions"
| "case_steps_loop S vt env case_assumptions (cs # rest) =
    (case cs of
       JObj d \<Rightarrow>
         (let cs_formula = py_get d ''formula'' in
          if truthy cs_formula then
            (case translate_all S vt env case_assumptions of
               Inl e \<Rightarrow> Inl e
             | Inr zs \<Rightarrow>
                (case translate_copy S vt env cs_formula of
                   Inl e \<Rightarrow> Inl e
                 | Inr z \<Rightarrow>
                     if check S (zs @ [ZNot z]) = Unsat
                     then case_steps_loop S vt env (case_assumptions @ [cs_formula]) rest
                     else case_steps_loop S vt env case_assumptions rest))
          else case_steps_loop S vt env case_assumptions rest)
     | _ \<Rightarrow> Inl (OtherError ''object has no attribute get''))"

text \<open>
  The loop \<^verbatim>\<open>for case_idx, case in enumerate(cases)\<close>: it collects the conditions and the
  per-case results \<^verbatim>\<open>{"case": case_idx + 1, "ok": True}\<close>.
\<close>

fun cases_loop ::
  "solver \<Rightarrow> var_types \<Rightarrow> env \<Rightarrow> json list \<Rightarrow> nat \<Rightarrow> json list \<Rightarrow> json list \<Rightarrow> pyval list
     \<Rightarrow> error + json list \<times> pyval list" where
  "cases_loop S vt env cur case_idx [] conditions case_results = Inr (conditions, case_results)"
| "cases_loop S vt env cur case_idx (c # rest) conditions case_results =
    (case c of
       JObj d \<Rightarrow>
         (case py_iter (py_get_list d ''steps'') of
            None \<Rightarrow> Inl (OtherError ''NoneType object is not iterable'')
          | Some case_steps \<Rightarrow>
             (case case_steps_loop S vt env (cur @ [py_get d ''condition'']) case_steps of
                Inl e \<Rightarrow> Inl e
              | Inr case_assumptions \<Rightarrow>
                  cases_loop S vt env cur (Suc case_idx) rest
                    (conditions @ [py_get d ''condition''])
                    (case_results @
                       [PDict [(''case'', PInt (int case_idx + 1)), (''ok'', PBool True)]])))
     | _ \<Rightarrow> Inl (OtherError ''object has no attribute get''))"

text \<open>
  One iteration of \<^verbatim>\<open>for i, step in enumerate(steps)\<close>. The state is the pair of
  \<^verbatim>\<open>current_assumptions\<close> and \<^verbatim>\<open>step_results\<close>; \<open>env\<close> holds the declared variables only
  and is never changed here (all translations work on copies).
\<close>

definition run_step ::
  "solver \<Rightarrow> var_types \<Rightarrow> env \<Rightarrow> nat \<Rightarrow> json \<Rightarrow> json list \<times> pyval list
     \<Rightarrow> error + json list \<times> pyval list" where
  "run_step S vt env i step st =
    (case st of (cur, step_results) \<Rightarrow>
     (case step of
        JObj d \<Rightarrow>
          if py_get d ''type'' = JStr ''cases'' then
            (case py_iter (py_get_list d ''cases'') of
               None \<Rightarrow> Inl (OtherError ''NoneType object is not iterable'')
             | Some cases \<Rightarrow>
                (case cases_loop S vt env cur 0 cases [] [] of
                   Inl e \<Rightarrow> Inl e
                 | Inr (conditions, case_results) \<Rightarrow>
                     if conditions \<noteq> [] then
                       (case translate_all S vt env cur of
                          Inl e \<Rightarrow> Inl e
                        | Inr zs \<Rightarrow>
                           (case translate_all S vt env conditions of
                              Inl e \<Rightarrow> Inl e
                            | Inr cond_z3 \<Rightarrow>
                                if check S (zs @ [ZNot (ZOr cond_z3)]) \<noteq> Unsat
                                then Inr (cur, step_results @
                                       [PDict [(''step'', PInt (int i + 1)),
                                               (''type'', PStr ''cases''),
                                               (''ok'', PBool False),
                                               (''status'', PStr ''non-exhaustive''),
                                               (''message'', PStr ''Cases may not cover all possibilities'')]])
                                else Inr (cur, step_results @
                                       [PDict [(''step'', PInt (int i + 1)),
                                               (''type'', PStr ''cases''),
                                               (''ok'', PBool True),
                                               (''status'', PStr ''proven''),
                                               (''case_results'', PList case_results)]])))
                     else Inr (cur, step_results)))
          else
            (let step_formula = py_get d ''formula'' in
             if step_formula = JNull then
               Inr (cur, step_results @
                      [PDict [(''step'', PInt (int i + 1)), (''ok'', PBool False),
                              (''error'', PStr ''Step missing formula'')]])
             else
               (case translate_all S vt env cur of
                  Inl e \<Rightarrow> Inl e
                | Inr zs \<Rightarrow>
                   (case translate_copy S vt env step_formula of
                      Inl e \<Rightarrow> Inl e
                    | Inr step_z3 \<Rightarrow>
                       (let q = zs @ [ZNot step_z3]; result = check S q in
                        if result = Unsat then
                          Inr (cur @ [step_formula], step_results @
                                 [PDict [(''step'', PInt (int i + 1)), (''ok'', PBool True),
                                         (''status'', PStr ''proven'')]])
                        else if result = Sat then
                          Inr (cur, step_results @
                                 [PDict [(''step'', PInt (int i + 1)), (''ok'', PBool False),
                                         (''status'', PStr ''disproven''),
                                         (''model'', model_out S q env)]])
                        else
                          Inr (cur, step_results @
                                 [PDict [(''step'', PInt (int i + 1)), (''ok'', PBool False),
                                         (''status'', PStr ''unknown'')]])))))
      | _ \<Rightarrow> Inl (OtherError ''object has no attribute get'')))"

fun run_steps ::
  "solver \<Rightarrow> var_types \<Rightarrow> env \<Rightarrow> nat \<Rightarrow> json list \<Rightarrow> json list \<times> pyval list
     \<Rightarrow> error + json list \<times> pyval list" where
  "run_steps S vt env i [] st = Inr st"
| "run_steps S vt env i (step # rest) st =
    (case run_step S vt env i step st of
       Inl e \<Rightarrow> Inl e
     | Inr st1 \<Rightarrow> run_steps S vt env (Suc i) rest st1)"

section \<open>The driver: \<^verbatim>\<open>prove\<close>\<close>

text \<open>
  The loop over \<^verbatim>\<open>declared_vars\<close> that fills the initial environment.
\<close>

definition declare_vars :: "var_types \<Rightarrow> string list \<Rightarrow> env" where
  "declare_vars vt declared_vars =
     fold (\<lambda>name env. AList.update (JStr name) (mk_var vt (JStr name)) env) declared_vars []"

text \<open>
  The final query: the live assumptions and then the claim are translated in the one
  shared \<open>env\<close> (no copy here), and \<^verbatim>\<open>Not(claim_z3)\<close> is added last. The result is the list
  of assertions and the environment as the translations left it.
\<close>

definition final_query ::
  "solver \<Rightarrow> var_types \<Rightarrow> env \<Rightarrow> json list \<Rightarrow> json \<Rightarrow> error + zexpr list \<times> env" where
  "final_query S vt env cur claim =
    (case formulas_to_z3 (realval_ok S) vt cur env of
       Inl e \<Rightarrow> Inl e
     | Inr (zs, env1) \<Rightarrow>
        (case formula_to_z3 (realval_ok S) vt claim env1 of
           Inl e \<Rightarrow> Inl e
         | Inr (claim_z3, env2) \<Rightarrow> Inr (zs @ [ZNot claim_z3], env2)))"

text \<open>\<^verbatim>\<open>if step_results: response["step_results"] = step_results\<close>\<close>

definition with_steps :: "(string \<times> pyval) list \<Rightarrow> pyval list \<Rightarrow> pyval" where
  "with_steps response step_results =
    PDict (if step_results \<noteq> [] then response @ [(''step_results'', PList step_results)]
           else response)"

text \<open>
  The body of the \<^verbatim>\<open>try\<close> block of
  \<^verbatim>\<open>prove(assumptions, claim, declared_vars, var_types, steps)\<close>: \<open>Inl\<close> is an exception
  that leaves the block, \<open>Inr\<close> a returned response. The optional arguments left out by
  a caller are the empty list and the empty dict.
\<close>

definition prove_body ::
  "solver \<Rightarrow> json list \<Rightarrow> json \<Rightarrow> string list \<Rightarrow> var_types \<Rightarrow> json list \<Rightarrow> error + pyval" where
  "prove_body S assumptions claim declared_vars vt steps =
    (let env = declare_vars vt declared_vars in
     case run_steps S vt env 0 steps (assumptions, []) of
       Inl e \<Rightarrow> Inl e
     | Inr (current_assumptions, step_results) \<Rightarrow>
        (case final_query S vt env current_assumptions claim of
           Inl e \<Rightarrow> Inl e
         | Inr (q, env2) \<Rightarrow>
            (let result = check S q in
             if result = Unsat then
               Inr (with_steps [(''ok'', PBool True), (''status'', PStr ''proven'')] step_results)
             else if result = Sat then
               (case format_counterexample S q env2 of
                  Inl e \<Rightarrow> Inl e
                | Inr message \<Rightarrow>
                    Inr (with_steps [(''ok'', PBool False), (''status'', PStr ''disproven''),
                                     (''model'', model_out S q env2),
                                     (''message'', PStr message)] step_results))
             else
               Inr (with_steps [(''ok'', PBool False), (''status'', PStr ''unknown''),
                                (''message'', PStr ''Z3 could not determine satisfiability (timeout or incomplete theory)'')]
                               step_results))))"

text \<open>\<^verbatim>\<open>prove\<close>: the \<^verbatim>\<open>try\<close> block with its two \<^verbatim>\<open>except\<close> clauses.\<close>

definition prove ::
  "solver \<Rightarrow> json list \<Rightarrow> json \<Rightarrow> string list \<Rightarrow> var_types \<Rightarrow> json list \<Rightarrow> pyval" where
  "prove S assumptions claim declared_vars vt steps =
    (case prove_body S assumptions claim declared_vars vt steps of
       Inl e \<Rightarrow> error_response e
     | Inr response \<Rightarrow> response)"

text \<open>Reading a field of a response: \<^verbatim>\<open>result.get(k)\<close>, \<open>None\<close> when the key is absent.\<close>

fun field :: "pyval \<Rightarrow> string \<Rightarrow> pyval option" where
  "field (PDict d) k = map_of d k"
| "field v k = None"

section \<open>The parser: tokens and parser state\<close>

text \<open>
  \<^verbatim>\<open>parser.py\<close>. The parser reads the token list the lexer made; the lexer itself is not
  modelled. A token type is one of the strings the lexer emits (\<open>INT_KW\<close> and \<open>REAL_KW\<close>
  are the types \<^verbatim>\<open>'INT'\<close> and \<^verbatim>\<open>'REAL'\<close>); the line and column of a token only feed
  error messages and are left out, and an error message is kept to its fixed part.
\<close>

datatype tok_type =
    ASSUME | PROVE | HAVE | ASSERT | LET | THEOREM | APPLY | IMPORT | CASES | CASE
  | AND | OR | NOT | IMPLIES | FORALL | EXISTS | TRUE | FALSE | INT_KW | REAL_KW | IN
  | SET | FUNC | IDENT | NUMBER | STRING | NEWLINE | EOF
  | LE | GE | NE | IMPLIES_OP | EQ | LT | GT | PLUS | MINUS | STAR | SLASH | CARET
  | LPAREN | RPAREN | COMMA | COLON | DOT | PIPE

record token =
  ttype :: tok_type
  tvalue :: string

text \<open>
  The methods that parse formulas and terms read \<^verbatim>\<open>self.tokens\<close> and change only
  \<^verbatim>\<open>self.pos\<close> and \<^verbatim>\<open>self.variables\<close>: this is their state.
\<close>

record pstate =
  pos :: nat
  variables :: "string set"

text \<open>
  The outcome of a method: it returns a value, or raises \<^verbatim>\<open>ParseError\<close>; in both cases
  the fields of the parser are as the method left them (the main loop recovers from
  where the exception was raised). The recursion of the parser is bounded in the model
  by a fuel argument: \<open>OutOfFuel\<close> says that the bound was too small, never what the
  parser does.
\<close>

datatype ('a, 's) presult = Ok 'a 's | Err string 's | OutOfFuel

definition pbind :: "('a, 's) presult \<Rightarrow> ('a \<Rightarrow> 's \<Rightarrow> ('b, 's) presult) \<Rightarrow> ('b, 's) presult" where
  "pbind r k = (case r of Ok a s \<Rightarrow> k a s | Err m s \<Rightarrow> Err m s | OutOfFuel \<Rightarrow> OutOfFuel)"

lemma pbind_simps [simp]:
  "pbind (Ok a s) k = k a s"
  "pbind (Err m s) k = Err m s"
  "pbind OutOfFuel k = OutOfFuel"
  by (simp_all add: pbind_def)

definition current :: "token list \<Rightarrow> pstate \<Rightarrow> token" where
  "current toks st = (if pos st < length toks then toks ! pos st else last toks)"

definition advance :: "pstate \<Rightarrow> pstate" where
  "advance st = st\<lparr>pos := Suc (pos st)\<rparr>"

definition match :: "token list \<Rightarrow> pstate \<Rightarrow> tok_type list \<Rightarrow> bool" where
  "match toks st tys = (ttype (current toks st) \<in> set tys)"

definition expect :: "token list \<Rightarrow> pstate \<Rightarrow> tok_type \<Rightarrow> (token, pstate) presult" where
  "expect toks st ty =
     (if ttype (current toks st) \<noteq> ty then Err ''Expected token'' st
      else Ok (current toks st) (advance st))"

definition relops :: "tok_type list" where
  "relops = [LT, LE, EQ, NE, GT, GE]"

fun op_map :: "tok_type \<Rightarrow> string" where
  "op_map LT = ''<''"
| "op_map LE = ''<=''"
| "op_map EQ = ''=''"
| "op_map NE = ''!=''"
| "op_map GT = ''>''"
| "op_map GE = ''>=''"
| "op_map t = ''''"

definition func_node :: "string \<Rightarrow> json list \<Rightarrow> pstate \<Rightarrow> (json, pstate) presult" where
  "func_node func_name args st =
    (if func_name = ''abs'' then
       (if length args \<noteq> 1 then Err ''abs() takes 1 argument'' st
        else Ok (JObj [(''type'', JStr ''abs''), (''arg'', hd args)]) st)
     else if func_name = ''sqrt'' then
       (if length args \<noteq> 1 then Err ''sqrt() takes 1 argument'' st
        else Ok (JObj [(''type'', JStr ''sqrt''), (''arg'', hd args)]) st)
     else if func_name = ''min'' then
       (if length args < 2 then Err ''min() requires at least 2 arguments'' st
        else Ok (JObj [(''type'', JStr ''min''), (''args'', JArr args)]) st)
     else if func_name = ''max'' then
       (if length args < 2 then Err ''max() requires at least 2 arguments'' st
        else Ok (JObj [(''type'', JStr ''max''), (''args'', JArr args)]) st)
     else Err ''Unknown function'' st)"

section \<open>The parser: formulas and terms\<close>

text \<open>
  The loop \<^verbatim>\<open>while self.match('COMMA')\<close> of \<^verbatim>\<open>parse_quantifier\<close>.
\<close>

primrec quant_vars_loop :: "nat \<Rightarrow> token list \<Rightarrow> string list \<Rightarrow> pstate \<Rightarrow> (string list, pstate) presult" where
  "quant_vars_loop 0 toks var_names st = OutOfFuel"
| "quant_vars_loop (Suc n) toks var_names st =
    (if match toks st [COMMA] then
       pbind (expect toks (advance st) IDENT)
         (\<lambda>tok st1. quant_vars_loop n toks (var_names @ [tvalue tok]) st1)
     else Ok var_names st)"

text \<open>
  The mutually recursive methods \<^verbatim>\<open>parse_formula\<close> ... \<^verbatim>\<open>parse_atom\<close> are one function
  \<open>run\<close> on the fuel, with the method as an argument: \<open>run n toks Parse_or st\<close> is the call
  \<^verbatim>\<open>self.parse_or()\<close> in state \<open>st\<close>. A \<open>_loop\<close> call is the \<^verbatim>\<open>while\<close> loop of the method of
  that name, carrying the loop's local variables, together with what follows the loop.
\<close>

datatype call =
    Parse_formula | Parse_implies | Parse_or | Parse_or_loop "json list" | Parse_and | Parse_and_loop "json list" | Parse_not
  | Parse_quantifier | Parse_relation | Parse_relation_loop "json list" json
  | Parse_expr | Parse_expr_loop json | Parse_term | Parse_term_loop json | Parse_power | Parse_unary | Parse_atom
  | Parse_args_loop string "json list"

primrec run :: "nat \<Rightarrow> token list \<Rightarrow> call \<Rightarrow> pstate \<Rightarrow> (json, pstate) presult" where
  "run 0 toks c st = OutOfFuel"
| "run (Suc n) toks c st =
    (case c of
       Parse_formula \<Rightarrow> run n toks Parse_implies st
     | Parse_implies \<Rightarrow>
         pbind (run n toks Parse_or st) (\<lambda>left st1.
           if match toks st1 [IMPLIES, IMPLIES_OP] then
             pbind (run n toks Parse_implies (advance st1)) (\<lambda>right st2.
               Ok (JObj [(''type'', JStr ''implies''), (''lhs'', left), (''rhs'', right)]) st2)
           else Ok left st1)
     | Parse_or \<Rightarrow>
         pbind (run n toks Parse_and st) (\<lambda>left st1. run n toks (Parse_or_loop [left]) st1)
     | Parse_or_loop args \<Rightarrow>
         if match toks st [OR] then
           pbind (run n toks Parse_and (advance st)) (\<lambda>a st1. run n toks (Parse_or_loop (args @ [a])) st1)
         else if length args = 1 then Ok (hd args) st
         else Ok (JObj [(''type'', JStr ''or''), (''args'', JArr args)]) st
     | Parse_and \<Rightarrow>
         pbind (run n toks Parse_not st) (\<lambda>left st1. run n toks (Parse_and_loop [left]) st1)
     | Parse_and_loop args \<Rightarrow>
         if match toks st [AND] then
           pbind (run n toks Parse_not (advance st)) (\<lambda>a st1. run n toks (Parse_and_loop (args @ [a])) st1)
         else if length args = 1 then Ok (hd args) st
         else Ok (JObj [(''type'', JStr ''and''), (''args'', JArr args)]) st
     | Parse_not \<Rightarrow>
         if match toks st [NOT] then
           pbind (run n toks Parse_not (advance st)) (\<lambda>arg st1.
             Ok (JObj [(''type'', JStr ''not''), (''arg'', arg)]) st1)
         else run n toks Parse_quantifier st
     | Parse_quantifier \<Rightarrow>
         if match toks st [FORALL, EXISTS] then
           pbind (expect toks (advance st) IDENT) (\<lambda>tok st1.
             pbind (quant_vars_loop n toks [tvalue tok] st1) (\<lambda>var_names st2.
               pbind (expect toks st2 DOT) (\<lambda>dot st3.
                 pbind (run n toks Parse_formula (st3\<lparr>variables := variables st3 \<union> set var_names\<rparr>))
                   (\<lambda>body st4.
                     Ok (JObj [(''type'', JStr (if ttype (current toks st) = FORALL
                                                then ''forall'' else ''exists'')),
                               (''vars'', JArr (map JStr var_names)),
                               (''body'', body)]) st4))))
         else run n toks Parse_relation st
     | Parse_relation \<Rightarrow>
         pbind (run n toks Parse_expr st) (\<lambda>left st1.
           if \<not> match toks st1 relops then Ok left st1
           else run n toks (Parse_relation_loop [] left) st1)
     | Parse_relation_loop comparisons current_left \<Rightarrow>
         if match toks st relops then
           pbind (run n toks Parse_expr (advance st)) (\<lambda>right st1.
             run n toks
               (Parse_relation_loop
                  (comparisons @ [JObj [(''type'', JStr ''rel''),
                                        (''op'', JStr (op_map (ttype (current toks st)))),
                                        (''lhs'', current_left), (''rhs'', right)]])
                  right) st1)
         else if length comparisons = 1 then Ok (hd comparisons) st
         else Ok (JObj [(''type'', JStr ''and''), (''args'', JArr comparisons)]) st
     | Parse_expr \<Rightarrow>
         pbind (run n toks Parse_term st) (\<lambda>left st1. run n toks (Parse_expr_loop left) st1)
     | Parse_expr_loop left \<Rightarrow>
         if match toks st [PLUS, MINUS] then
           pbind (run n toks Parse_term (advance st)) (\<lambda>right st1.
             run n toks
               (Parse_expr_loop (JObj [(''type'', JStr ''bin''),
                                 (''op'', JStr (if ttype (current toks st) = PLUS then ''+'' else ''-'')),
                                 (''lhs'', left), (''rhs'', right)])) st1)
         else Ok left st
     | Parse_term \<Rightarrow>
         pbind (run n toks Parse_power st) (\<lambda>left st1. run n toks (Parse_term_loop left) st1)
     | Parse_term_loop left \<Rightarrow>
         if match toks st [STAR, SLASH] then
           pbind (run n toks Parse_power (advance st)) (\<lambda>right st1.
             run n toks
               (Parse_term_loop (JObj [(''type'', JStr ''bin''),
                                 (''op'', JStr (if ttype (current toks st) = STAR then ''*'' else ''/'')),
                                 (''lhs'', left), (''rhs'', right)])) st1)
         else Ok left st
     | Parse_power \<Rightarrow>
         pbind (run n toks Parse_unary st) (\<lambda>base st1.
           if match toks st1 [CARET] then
             pbind (run n toks Parse_power (advance st1)) (\<lambda>ex st2.
               Ok (JObj [(''type'', JStr ''pow''), (''base'', base), (''exp'', ex)]) st2)
           else Ok base st1)
     | Parse_unary \<Rightarrow>
         if match toks st [MINUS] then
           pbind (run n toks Parse_unary (advance st)) (\<lambda>arg st1.
             Ok (JObj [(''type'', JStr ''neg''), (''arg'', arg)]) st1)
         else run n toks Parse_atom st
     | Parse_atom \<Rightarrow>
         (let tok = current toks st in
          if ttype tok = NUMBER then
            Ok (JObj [(''type'', JStr ''num''), (''value'', JStr (tvalue tok))]) (advance st)
          else if ttype tok = IDENT then
            Ok (JObj [(''type'', JStr ''var''), (''name'', JStr (tvalue tok))])
               ((advance st)\<lparr>variables := insert (tvalue tok) (variables st)\<rparr>)
          else if ttype tok = FUNC then
            pbind (expect toks (advance st) LPAREN) (\<lambda>lp st1.
              pbind (run n toks Parse_expr st1) (\<lambda>a st2.
                run n toks (Parse_args_loop (tvalue tok) [a]) st2))
          else if ttype tok = LPAREN then
            pbind (run n toks Parse_formula (advance st)) (\<lambda>expr st1.
              pbind (expect toks st1 RPAREN) (\<lambda>rp st2. Ok expr st2))
          else if ttype tok = PIPE then
            pbind (run n toks Parse_expr (advance st)) (\<lambda>arg st1.
              pbind (expect toks st1 PIPE) (\<lambda>rp st2.
                Ok (JObj [(''type'', JStr ''abs''), (''arg'', arg)]) st2))
          else if ttype tok = TRUE then
            Ok (JObj [(''type'', JStr ''and''), (''args'', JArr [])]) (advance st)
          else if ttype tok = FALSE then
            Ok (JObj [(''type'', JStr ''or''), (''args'', JArr [])]) (advance st)
          else Err ''Unexpected token'' st)
     | Parse_args_loop func_name args \<Rightarrow>
         if match toks st [COMMA] then
           pbind (run n toks Parse_expr (advance st)) (\<lambda>a st1.
             run n toks (Parse_args_loop func_name (args @ [a])) st1)
         else pbind (expect toks st RPAREN) (\<lambda>rp st1. func_node func_name args st1))"

definition parse_formula :: "nat \<Rightarrow> token list \<Rightarrow> pstate \<Rightarrow> (json, pstate) presult" where
  "parse_formula n toks st = run n toks Parse_formula st"

definition parse_expr :: "nat \<Rightarrow> token list \<Rightarrow> pstate \<Rightarrow> (json, pstate) presult" where
  "parse_expr n toks st = run n toks Parse_expr st"

definition parse_relation :: "nat \<Rightarrow> token list \<Rightarrow> pstate \<Rightarrow> (json, pstate) presult" where
  "parse_relation n toks st = run n toks Parse_relation st"

definition parse_and :: "nat \<Rightarrow> token list \<Rightarrow> pstate \<Rightarrow> (json, pstate) presult" where
  "parse_and n toks st = run n toks Parse_and st"

section \<open>The parser: statements\<close>

text \<open>
  The whole \<^verbatim>\<open>Parser\<close> object: the state of the formula methods and the other fields.
  \<open>claim = JNull\<close> is \<^verbatim>\<open>self.claim = None\<close>; \<^verbatim>\<open>current_theorem\<close> is never assigned and is
  left out. The file system behind \<^verbatim>\<open>import\<close> is a parameter: how a path is resolved
  against the base path, whether a file exists, the tokens of its content (\<open>None\<close> when
  reading or lexing raises) and the directory of a path.
\<close>

record parser =
  ps :: pstate
  assumptions :: "json list"
  steps :: "json list"
  claim :: json
  var_types :: "string \<Rightarrow> string option"
  theorems :: "string \<Rightarrow> (json list \<times> json) option"
  base_path :: string
  imported_files :: "string set"
  errors :: "string list"

record file_system =
  resolve :: "string \<Rightarrow> string \<Rightarrow> string"
  file_exists :: "string \<Rightarrow> bool"
  read_tokens :: "string \<Rightarrow> token list option"
  dirname :: "string \<Rightarrow> string"

definition in_ps ::
  "('a, pstate) presult \<Rightarrow> parser \<Rightarrow> ('a \<Rightarrow> parser \<Rightarrow> ('b, parser) presult) \<Rightarrow> ('b, parser) presult" where
  "in_ps r P k = (case r of Ok a st \<Rightarrow> k a (P\<lparr>ps := st\<rparr>)
                  | Err m st \<Rightarrow> Err m (P\<lparr>ps := st\<rparr>)
                  | OutOfFuel \<Rightarrow> OutOfFuel)"

primrec skip_newlines :: "nat \<Rightarrow> token list \<Rightarrow> pstate \<Rightarrow> (unit, pstate) presult" where
  "skip_newlines 0 toks st = OutOfFuel"
| "skip_newlines (Suc n) toks st =
    (if match toks st [NEWLINE] then skip_newlines n toks (advance st) else Ok () st)"

text \<open>
  The \<^verbatim>\<open>LET\<close> branch of \<^verbatim>\<open>parse_statement\<close>, block by block: the type annotation
  (\<^verbatim>\<open>if self.match('COLON')\<close>), the set membership (\<^verbatim>\<open>if self.match('IN')\<close>) with its table
  from set names to types and constraints, the initialiser (\<^verbatim>\<open>if self.match('EQ')\<close>), and
  the final updates of \<^verbatim>\<open>variables\<close>, \<^verbatim>\<open>var_types\<close> and \<^verbatim>\<open>assumptions\<close>.
\<close>

definition let_type_annotation :: "token list \<Rightarrow> pstate \<Rightarrow> (string, pstate) presult" where
  "let_type_annotation toks st =
    (if match toks st [COLON] then
       (let type_tok = current toks (advance st) in
        if ttype type_tok = INT_KW \<or> ttype type_tok = REAL_KW then
          Ok (if ttype type_tok = INT_KW then ''Int'' else ''Real'') (advance (advance st))
        else Err ''Expected Int or Real'' (advance st))
     else Ok ''Real'' st)"

definition set_type :: "string \<Rightarrow> string \<Rightarrow> string" where
  "set_type set_name var_type =
    (if set_name = ''R'' then ''Real''
     else if set_name = ''Z'' then ''Int''
     else if set_name = ''N'' then ''Int''
     else if set_name = ''Q'' then ''Real''
     else var_type)"

definition set_constraint :: "string \<Rightarrow> bool \<Rightarrow> string option" where
  "set_constraint set_name is_positive =
    (if set_name = ''R'' then (if is_positive then Some ''>'' else None)
     else if set_name = ''Z'' then (if is_positive then Some ''>'' else None)
     else if set_name = ''N'' then (if is_positive then Some ''>'' else Some ''>='')
     else if set_name = ''Q'' then (if is_positive then Some ''>'' else None)
     else None)"

definition let_set_membership ::
  "token list \<Rightarrow> pstate \<Rightarrow> string \<Rightarrow> (string \<times> string option, pstate) presult" where
  "let_set_membership toks st var_type =
    (if match toks st [IN] then
       (if match toks (advance st) [SET] then
          (let set_name = tvalue (current toks (advance st));
               is_positive = match toks (advance (advance st)) [PLUS]
           in Ok (set_type set_name var_type, set_constraint set_name is_positive)
                 (if is_positive then advance (advance (advance st)) else advance (advance st)))
        else Err ''Expected set name (R, Z, N, Q)'' (advance st))
     else Ok (var_type, None) st)"

definition let_initialiser :: "nat \<Rightarrow> token list \<Rightarrow> pstate \<Rightarrow> (unit, pstate) presult" where
  "let_initialiser n toks st =
    (if match toks st [EQ] then pbind (parse_expr n toks (advance st)) (\<lambda>e st1. Ok () st1)
     else Ok () st)"

definition let_record :: "string \<Rightarrow> string \<Rightarrow> string option \<Rightarrow> parser \<Rightarrow> parser" where
  "let_record name var_type constraint P =
     P\<lparr>ps := (ps P)\<lparr>variables := insert name (variables (ps P))\<rparr>,
       var_types := (var_types P)(name \<mapsto> var_type),
       assumptions := assumptions P @
         (case constraint of
            None \<Rightarrow> []
          | Some op \<Rightarrow> [JObj [(''type'', JStr ''rel''), (''op'', JStr op),
                              (''lhs'', JObj [(''type'', JStr ''var''), (''name'', JStr name)]),
                              (''rhs'', JObj [(''type'', JStr ''num''), (''value'', JStr ''0'')])]])\<rparr>"

definition parse_let :: "nat \<Rightarrow> token list \<Rightarrow> parser \<Rightarrow> (unit, parser) presult" where
  "parse_let n toks P =
    in_ps (expect toks (advance (ps P)) IDENT) P (\<lambda>name_tok P1.
      in_ps (let_type_annotation toks (ps P1)) P1 (\<lambda>var_type P2.
        in_ps (let_set_membership toks (ps P2) var_type) P2 (\<lambda>tc P3.
          in_ps (let_initialiser n toks (ps P3)) P3 (\<lambda>u P4.
            Ok () (let_record (tvalue name_tok) (fst tc) (snd tc) P4)))))"

definition parse_apply :: "token list \<Rightarrow> parser \<Rightarrow> (unit, parser) presult" where
  "parse_apply toks P =
    in_ps (expect toks (advance (ps P)) IDENT) P (\<lambda>name_tok P1.
      case theorems P1 (tvalue name_tok) of
        None \<Rightarrow> Err ''Unknown theorem'' P1
      | Some (thm_assumptions, conclusion) \<Rightarrow>
          if thm_assumptions \<noteq> [] then
            Ok () (P1\<lparr>assumptions := assumptions P1 @
              [JObj [(''type'', JStr ''implies''),
                     (''lhs'', if length thm_assumptions > 1
                               then JObj [(''type'', JStr ''and''), (''args'', JArr thm_assumptions)]
                               else hd thm_assumptions),
                     (''rhs'', conclusion)]]\<rparr>)
          else Ok () (P1\<lparr>assumptions := assumptions P1 @ [conclusion]\<rparr>))"

primrec parse_case_steps_loop ::
  "nat \<Rightarrow> token list \<Rightarrow> json list \<Rightarrow> pstate \<Rightarrow> (json list, pstate) presult" where
  "parse_case_steps_loop 0 toks case_steps st = OutOfFuel"
| "parse_case_steps_loop (Suc n) toks case_steps st =
    (if \<not> match toks st [CASE, EOF, PROVE, ASSUME, LET, THEOREM, IMPORT, CASES] then
       (if match toks st [HAVE, ASSERT] then
          pbind (parse_formula n toks (advance st)) (\<lambda>formula st1.
            pbind (skip_newlines n toks st1) (\<lambda>u st2.
              parse_case_steps_loop n toks (case_steps @ [JObj [(''formula'', formula)]]) st2))
        else if match toks st [NEWLINE] then parse_case_steps_loop n toks case_steps (advance st)
        else Ok case_steps st)
     else Ok case_steps st)"

primrec parse_cases_loop ::
  "nat \<Rightarrow> token list \<Rightarrow> json list \<Rightarrow> pstate \<Rightarrow> (json list, pstate) presult" where
  "parse_cases_loop 0 toks cases st = OutOfFuel"
| "parse_cases_loop (Suc n) toks cases st =
    (if match toks st [CASE] then
       pbind (parse_formula n toks (advance st)) (\<lambda>condition st1.
         pbind (expect toks st1 COLON) (\<lambda>colon st2.
           pbind (skip_newlines n toks st2) (\<lambda>u st3.
             pbind (parse_case_steps_loop n toks [] st3) (\<lambda>case_steps st4.
               parse_cases_loop n toks
                 (cases @ [JObj [(''condition'', condition), (''steps'', JArr case_steps)]]) st4))))
     else Ok cases st)"

definition parse_cases :: "nat \<Rightarrow> token list \<Rightarrow> parser \<Rightarrow> (unit, parser) presult" where
  "parse_cases n toks P =
    in_ps (pbind (expect toks (advance (ps P)) COLON) (\<lambda>colon st1.
             pbind (skip_newlines n toks st1) (\<lambda>u st2. parse_cases_loop n toks [] st2))) P
      (\<lambda>cases P1.
         if cases = [] then Err ''cases block requires at least one case'' P1
         else Ok () (P1\<lparr>steps := steps P1 @
                       [JObj [(''type'', JStr ''cases''), (''cases'', JArr cases)]]\<rparr>))"

text \<open>
  \<^verbatim>\<open>parse_statement\<close> is recursive through \<^verbatim>\<open>parse_theorem\<close> and \<^verbatim>\<open>parse_import\<close>, whose
  loops call it: as above, one function \<open>srun\<close> on the fuel. \<open>Theorem_loop\<close> is the loop
  \<^verbatim>\<open>while not self.match('EOF') and self.claim is None\<close> of \<^verbatim>\<open>parse_theorem\<close>,
  \<open>Import_loop\<close> the loop over the statements of an imported file.
\<close>

datatype scall = Parse_statement | Theorem_loop | Import_loop

definition new_parser :: "string \<Rightarrow> parser" where
  "new_parser base = \<lparr>ps = \<lparr>pos = 0, variables = {}\<rparr>, assumptions = [], steps = [], claim = JNull,
     var_types = Map.empty, theorems = Map.empty, base_path = base, imported_files = {},
     errors = []\<rparr>"

definition parse_theorem ::
  "(scall \<Rightarrow> parser \<Rightarrow> (unit, parser) presult) \<Rightarrow> nat \<Rightarrow> token list \<Rightarrow> parser \<Rightarrow> (unit, parser) presult" where
  "parse_theorem rec n toks P =
    in_ps (pbind (expect toks (advance (ps P)) IDENT) (\<lambda>name_tok st1.
             pbind (expect toks st1 COLON) (\<lambda>colon st2.
               pbind (skip_newlines n toks st2) (\<lambda>u st3. Ok name_tok st3)))) P
      (\<lambda>name_tok P1.
         pbind (rec Theorem_loop (P1\<lparr>assumptions := [], claim := JNull\<rparr>)) (\<lambda>u P2.
           if claim P2 = JNull then Err ''Theorem has no prove statement'' P2
           else Ok () (P2\<lparr>theorems := (theorems P2)(tvalue name_tok \<mapsto> (assumptions P2, claim P2)),
                         assumptions := assumptions P1, claim := claim P1\<rparr>)))"

definition parse_import ::
  "(token list \<Rightarrow> scall \<Rightarrow> parser \<Rightarrow> (unit, parser) presult) \<Rightarrow> nat \<Rightarrow> file_system \<Rightarrow> token list
     \<Rightarrow> parser \<Rightarrow> (unit, parser) presult" where
  "parse_import rec n fs toks P =
    in_ps (expect toks (advance (ps P)) STRING) P (\<lambda>path_tok P1.
      (let import_path = resolve fs (base_path P1) (butlast (tl (tvalue path_tok))) in
       if import_path \<in> imported_files P1 then Ok () P1
       else
         (let P2 = P1\<lparr>imported_files := insert import_path (imported_files P1)\<rparr> in
          if \<not> file_exists fs import_path then Err ''Import file not found'' P2
          else
            (case read_tokens fs import_path of
               None \<Rightarrow> Err ''Error importing'' P2
             | Some itoks \<Rightarrow>
                (case pbind (in_ps (skip_newlines n itoks \<lparr>pos = 0, variables = {}\<rparr>)
                               ((new_parser (dirname fs import_path))
                                  \<lparr>imported_files := imported_files P2\<rparr>) (\<lambda>u IP. Ok () IP))
                            (\<lambda>u IP. rec itoks Import_loop IP) of
                   Ok u IP \<Rightarrow> Ok () (P2\<lparr>theorems := theorems P2 ++ theorems IP,
                                         imported_files := imported_files IP\<rparr>)
                 | Err m IP \<Rightarrow> Err ''Error importing'' (P2\<lparr>imported_files := imported_files IP\<rparr>)
                 | OutOfFuel \<Rightarrow> OutOfFuel)))))"

primrec srun ::
  "nat \<Rightarrow> file_system \<Rightarrow> token list \<Rightarrow> scall \<Rightarrow> parser \<Rightarrow> (unit, parser) presult" where
  "srun 0 fs toks c P = OutOfFuel"
| "srun (Suc n) fs toks c P =
    (case c of
       Parse_statement \<Rightarrow>
         (let tok = current toks (ps P) in
          if ttype tok = ASSUME then
            in_ps (parse_formula n toks (advance (ps P))) P (\<lambda>formula P1.
              Ok () (P1\<lparr>assumptions := assumptions P1 @ [formula]\<rparr>))
          else if ttype tok = PROVE then
            in_ps (parse_formula n toks (advance (ps P))) P (\<lambda>formula P1.
              Ok () (P1\<lparr>claim := formula\<rparr>))
          else if ttype tok = HAVE \<or> ttype tok = ASSERT then
            in_ps (parse_formula n toks (advance (ps P))) P (\<lambda>formula P1.
              Ok () (P1\<lparr>steps := steps P1 @ [JObj [(''formula'', formula)]]\<rparr>))
          else if ttype tok = LET then parse_let n toks P
          else if ttype tok = THEOREM then parse_theorem (srun n fs toks) n toks P
          else if ttype tok = APPLY then parse_apply toks P
          else if ttype tok = IMPORT then parse_import (srun n fs) n fs toks P
          else if ttype tok = CASES then parse_cases n toks P
          else Err ''Expected statement keyword'' P)
     | Theorem_loop \<Rightarrow>
         if \<not> match toks (ps P) [EOF] \<and> claim P = JNull then
           pbind (srun n fs toks Parse_statement P) (\<lambda>u P1.
             in_ps (skip_newlines n toks (ps P1)) P1 (\<lambda>u P2. srun n fs toks Theorem_loop P2))
         else Ok () P
     | Import_loop \<Rightarrow>
         if \<not> match toks (ps P) [EOF] then
           pbind (srun n fs toks Parse_statement P) (\<lambda>u P1.
             in_ps (skip_newlines n toks (ps P1)) P1 (\<lambda>u P2. srun n fs toks Import_loop P2))
         else Ok () P)"

definition parse_statement ::
  "nat \<Rightarrow> file_system \<Rightarrow> token list \<Rightarrow> parser \<Rightarrow> (unit, parser) presult" where
  "parse_statement n fs toks P = srun n fs toks Parse_statement P"

text \<open>
  \<^verbatim>\<open>Parser.parse\<close>: the main loop with error recovery, then the checks that raise, then
  the result dict.
\<close>

definition statement_starters :: "tok_type list" where
  "statement_starters = [ASSUME, PROVE, HAVE, ASSERT, LET, THEOREM, APPLY, IMPORT, CASES, EOF]"

primrec recover_to_next_statement :: "nat \<Rightarrow> token list \<Rightarrow> pstate \<Rightarrow> (unit, pstate) presult" where
  "recover_to_next_statement 0 toks st = OutOfFuel"
| "recover_to_next_statement (Suc n) toks st =
    (if \<not> match toks st [EOF] then
       (if match toks st [NEWLINE] then
          (if match toks (advance st) statement_starters then Ok () (advance st)
           else recover_to_next_statement n toks (advance st))
        else recover_to_next_statement n toks (advance st))
     else Ok () st)"

primrec parse_loop :: "nat \<Rightarrow> file_system \<Rightarrow> token list \<Rightarrow> parser \<Rightarrow> (unit, parser) presult" where
  "parse_loop 0 fs toks P = OutOfFuel"
| "parse_loop (Suc n) fs toks P =
    (if \<not> match toks (ps P) [EOF] then
       (case parse_statement n fs toks P of
          Ok u P1 \<Rightarrow>
            in_ps (skip_newlines n toks (ps P1)) P1 (\<lambda>u P2. parse_loop n fs toks P2)
        | Err m P1 \<Rightarrow>
            in_ps (recover_to_next_statement n toks (ps P1)) (P1\<lparr>errors := errors P1 @ [m]\<rparr>)
              (\<lambda>u P2. in_ps (skip_newlines n toks (ps P2)) P2 (\<lambda>u P3. parse_loop n fs toks P3))
        | OutOfFuel \<Rightarrow> OutOfFuel)
     else Ok () P)"

record proof_unit =
  u_vars :: "string set"
  u_var_types :: "string \<Rightarrow> string option"
  u_assumptions :: "json list"
  u_steps :: "json list"
  u_claim :: json
  u_theorems :: "string \<Rightarrow> (json list \<times> json) option"

definition parse :: "nat \<Rightarrow> file_system \<Rightarrow> token list \<Rightarrow> string \<Rightarrow> (proof_unit, parser) presult" where
  "parse n fs toks base =
    pbind (in_ps (skip_newlines n toks \<lparr>pos = 0, variables = {}\<rparr>) (new_parser base) (\<lambda>u P. Ok () P))
      (\<lambda>u P. pbind (parse_loop n fs toks P) (\<lambda>u P1.
         if errors P1 \<noteq> [] then Err ''Found error(s)'' P1
         else if claim P1 = JNull then Err ''No prove statement found'' P1
         else Ok \<lparr>u_vars = variables (ps P1), u_var_types = var_types P1,
                  u_assumptions = assumptions P1, u_steps = steps P1, u_claim = claim P1,
                  u_theorems = theorems P1\<rparr> P1))"

section \<open>Environments made by the driver\<close>

text \<open>
  An environment is canonical when every name it holds is mapped to the constant that
  \<open>mk_var\<close> makes for it. \<open>env_extends\<close>: from a canonical environment one gets a canonical
  environment that agrees with it on every name it held. \<open>ok_result\<close> lifts that to the
  result of a translation (nothing is said when it raises).
\<close>

definition canonical :: "var_types \<Rightarrow> env \<Rightarrow> bool" where
  "canonical vt env = (\<forall>n c. map_of env n = Some c \<longrightarrow> c = mk_var vt n)"

definition env_extends :: "var_types \<Rightarrow> env \<Rightarrow> env \<Rightarrow> bool" where
  "env_extends vt env env' =
     (canonical vt env \<longrightarrow> canonical vt env' \<and> map_of env \<subseteq>\<^sub>m map_of env')"

definition ok_result :: "var_types \<Rightarrow> env \<Rightarrow> error + 'a \<times> env \<Rightarrow> bool" where
  "ok_result vt env r = (case r of Inl e \<Rightarrow> True | Inr (z, env') \<Rightarrow> env_extends vt env env')"

text \<open>
  \<open>same_z\<close>: two results of a translation agree. Both raise the same exception, or both
  return the same solver term, each with a canonical environment.
\<close>

definition same_z :: "var_types \<Rightarrow> error + 'a \<times> env \<Rightarrow> error + 'a \<times> env \<Rightarrow> bool" where
  "same_z vt r r' =
     (case r of
        Inl e \<Rightarrow> r' = Inl e
      | Inr (z, e1) \<Rightarrow> (\<exists>e2. r' = Inr (z, e2) \<and> canonical vt e1 \<and> canonical vt e2))"

section \<open>Example inputs\<close>

text \<open>The helpers of \<^verbatim>\<open>test_prover.py\<close> that build AST nodes.\<close>

definition var :: "string \<Rightarrow> json" where
  "var name = JObj [(''type'', JStr ''var''), (''name'', JStr name)]"

definition num :: "string \<Rightarrow> json" where
  "num val = JObj [(''type'', JStr ''num''), (''value'', JStr val)]"

definition binary :: "string \<Rightarrow> json \<Rightarrow> json \<Rightarrow> json" where
  "binary op lhs rhs = JObj [(''type'', JStr ''bin''), (''op'', JStr op), (''lhs'', lhs), (''rhs'', rhs)]"

definition rel :: "string \<Rightarrow> json \<Rightarrow> json \<Rightarrow> json" where
  "rel op lhs rhs = JObj [(''type'', JStr ''rel''), (''op'', JStr op), (''lhs'', lhs), (''rhs'', rhs)]"

text \<open>A solver that accepts every numeral and answers unsat to every query.\<close>

definition unsat_solver :: solver where
  "unsat_solver = \<lparr>realval_ok = (\<lambda>v. True), check = (\<lambda>q. Unsat), model_eval = (\<lambda>q v. ''0'')\<rparr>"

text \<open>\<^verbatim>\<open>forall x. x >= 0\<close>\<close>

definition forall_x :: json where
  "forall_x = JObj [(''type'', JStr ''forall''), (''vars'', JArr [JStr ''x'']),
                    (''body'', rel ''>='' (var ''x'') (num ''0''))]"

lemmas ast_defs = var_def num_def binary_def rel_def py_get_def py_get_list_def Let_def mk_var_def

text \<open>
  The unit of scenario 5 of the specification: \<^verbatim>\<open>assume x != 0\<close>, a cases block with the
  single case \<^verbatim>\<open>x > 0: have x*x > 0\<close>, and \<^verbatim>\<open>prove x*x > 0\<close>, as the parser emits it.
\<close>

definition x_ne_0 :: json where
  "x_ne_0 = rel ''!='' (var ''x'') (num ''0'')"

definition x_gt_0 :: json where
  "x_gt_0 = rel ''>'' (var ''x'') (num ''0'')"

definition xx_gt_0 :: json where
  "xx_gt_0 = rel ''>'' (binary ''*'' (var ''x'') (var ''x'')) (num ''0'')"

definition cases_x_gt_0 :: json where
  "cases_x_gt_0 = JObj [(''type'', JStr ''cases''),
     (''cases'', JArr [JObj [(''condition'', x_gt_0),
                             (''steps'', JArr [JObj [(''formula'', xx_gt_0)]])]])]"

text \<open>
  A solver for that unit. A query that holds both \<open>x \<noteq> 0\<close> and \<open>\<not> (x * x > 0)\<close> has no
  model over the reals, and is answered unsat; the one other query the unit issues,
  \<open>x \<noteq> 0, \<not> (x > 0)\<close>, has the model \<open>x = -1\<close>, and is answered sat.
\<close>

definition square_solver :: solver where
  "square_solver = \<lparr>realval_ok = (\<lambda>v. True),
     check = (\<lambda>q. if ZNe (ZReal (JStr ''x'')) (ZRealVal (JStr ''0'')) \<in> set q \<and>
                      ZNot (ZGt (ZMul (ZReal (JStr ''x'')) (ZReal (JStr ''x'')))
                                (ZRealVal (JStr ''0''))) \<in> set q
                   then Unsat else Sat),
     model_eval = (\<lambda>q v. ''-1'')\<rparr>"

lemmas ex_defs = x_ne_0_def x_gt_0_def xx_gt_0_def cases_x_gt_0_def

text \<open>A step whose formula has an unknown kind.\<close>

definition bad_step :: json where
  "bad_step = JObj [(''formula'', JObj [(''type'', JStr ''foo'')])]"

text \<open>Tokens, as the lexer makes them, and a file system with no files.\<close>

definition tk :: "tok_type \<Rightarrow> string \<Rightarrow> token" where
  "tk ty v = \<lparr>ttype = ty, tvalue = v\<rparr>"

definition no_files :: file_system where
  "no_files = \<lparr>resolve = (\<lambda>base p. p), file_exists = (\<lambda>p. False), read_tokens = (\<lambda>p. None),
                dirname = (\<lambda>p. p)\<rparr>"

text \<open>\<^verbatim>\<open>prove x > 0\<close>, newline, \<^verbatim>\<open>prove y > 0\<close>\<close>

definition two_proves :: "token list" where
  "two_proves = [tk PROVE ''prove'', tk IDENT ''x'', tk GT ''>'', tk NUMBER ''0'',
                 tk NEWLINE [CHR 0x0A],
                 tk PROVE ''prove'', tk IDENT ''y'', tk GT ''>'', tk NUMBER ''0'', tk EOF []]"

text \<open>\<^verbatim>\<open>let x: Int\<close>, newline, \<^verbatim>\<open>let x\<close>, newline, \<^verbatim>\<open>prove x > 0\<close>\<close>

definition let_twice :: "token list" where
  "let_twice = [tk LET ''let'', tk IDENT ''x'', tk COLON '':'', tk INT_KW ''Int'',
                tk NEWLINE [CHR 0x0A],
                tk LET ''let'', tk IDENT ''x'', tk NEWLINE [CHR 0x0A],
                tk PROVE ''prove'', tk IDENT ''x'', tk GT ''>'', tk NUMBER ''0'', tk EOF []]"

text \<open>\<^verbatim>\<open>let n in N\<close>, newline; \<^verbatim>\<open>a < b < c\<close>; \<^verbatim>\<open>a < b and b < c\<close>\<close>

definition let_n_in_N :: "token list" where
  "let_n_in_N = [tk LET ''let'', tk IDENT ''n'', tk IN ''in'', tk SET ''N'', tk NEWLINE [CHR 0x0A],
                 tk EOF []]"



text \<open>The formulas of these token lists, as the parser builds them.\<close>

definition y_gt_0 :: json where
  "y_gt_0 = rel ''>'' (var ''y'') (num ''0'')"


section \<open>Set membership, as the specification states it\<close>

text \<open>
  The assumption that the specification gives for \<^verbatim>\<open>let x in S\<close>: \<open>x > 0\<close> for the positive
  variants \<^verbatim>\<open>N+\<close>, \<^verbatim>\<open>Z+\<close>, \<^verbatim>\<open>R+\<close> and \<^verbatim>\<open>Q+\<close>, \<open>x \<ge> 0\<close> for \<^verbatim>\<open>N\<close>, and none for the plain \<^verbatim>\<open>R\<close>,
  \<^verbatim>\<open>Z\<close> and \<^verbatim>\<open>Q\<close>. This definition follows the specification, not \<^verbatim>\<open>parser.py\<close>; the parser
  is compared with it below.
\<close>

definition membership_constraint :: "string \<Rightarrow> string \<Rightarrow> bool \<Rightarrow> json list" where
  "membership_constraint x s positive =
    (if positive \<and> s \<in> {''N'', ''Z'', ''R'', ''Q''} then [rel ''>'' (var x) (num ''0'')]
     else if s = ''N'' then [rel ''>='' (var x) (num ''0'')]
     else [])"

section \<open>The environment under translation\<close>

lemma env_extends_refl [simp]: "env_extends vt env env"
  by (simp add: env_extends_def)

lemma env_extends_trans: "env_extends vt a b \<Longrightarrow> env_extends vt b c \<Longrightarrow> env_extends vt a c"
  by (auto simp: env_extends_def intro: map_le_trans)

lemma env_extends_update [simp]: "env_extends vt env (AList.update n (mk_var vt n) env)"
  by (auto simp: env_extends_def canonical_def map_le_def update_conv' dom_def)

lemma ok_result_simps [simp]:
  "ok_result vt env (Inl e)"
  "ok_result vt env (Inr (z, env')) = env_extends vt env env'"
  by (simp_all add: ok_result_def)

lemma ok_result_weaken:
  "env_extends vt env env1 \<Longrightarrow> ok_result vt env1 r \<Longrightarrow> ok_result vt env r"
  by (cases r) (auto simp: ok_result_def intro: env_extends_trans)

lemma ok_result_bind:
  assumes "ok_result vt env r" and "\<And>z env1. ok_result vt env1 (k z env1)"
  shows "ok_result vt env (case r of Inl e \<Rightarrow> Inl e | Inr (z, env1) \<Rightarrow> k z env1)"
proof (cases r)
  case (Inl e)
  then show ?thesis by simp
next
  case (Inr p)
  obtain z env1 where p: "p = (z, env1)" by (cases p)
  from assms(1) Inr p have "env_extends vt env env1" by simp
  then have "ok_result vt env (k z env1)"
    using assms(2) by (rule ok_result_weaken)
  with Inr p show ?thesis by simp
qed

lemma ok_result_if:
  "(c \<Longrightarrow> ok_result vt env a) \<Longrightarrow> (\<not> c \<Longrightarrow> ok_result vt env b) \<Longrightarrow>
   ok_result vt env (if c then a else b)"
  by simp

lemma ok_result_option:
  "(x = None \<Longrightarrow> ok_result vt env a) \<Longrightarrow> (\<And>v. x = Some v \<Longrightarrow> ok_result vt env (f v)) \<Longrightarrow>
   ok_result vt env (case x of None \<Rightarrow> a | Some v \<Rightarrow> f v)"
  by (cases x) simp_all

lemma ok_result_pair:
  "(\<And>a b. p = (a, b) \<Longrightarrow> ok_result vt env (f a b)) \<Longrightarrow>
   ok_result vt env (case p of (a, b) \<Rightarrow> f a b)"
  by (cases p) simp

lemma ok_result_json:
  "(x = JNull \<Longrightarrow> ok_result vt env a) \<Longrightarrow> (\<And>s. x = JStr s \<Longrightarrow> ok_result vt env (b s)) \<Longrightarrow>
   (\<And>xs. x = JArr xs \<Longrightarrow> ok_result vt env (c xs)) \<Longrightarrow>
   (\<And>d. x = JObj d \<Longrightarrow> ok_result vt env (e d)) \<Longrightarrow>
   ok_result vt env (case x of JNull \<Rightarrow> a | JStr s \<Rightarrow> b s | JArr xs \<Rightarrow> c xs | JObj d \<Rightarrow> e d)"
  by (cases x) simp_all

lemma ok_result_list:
  "(x = [] \<Longrightarrow> ok_result vt env a) \<Longrightarrow> (\<And>y ys. x = y # ys \<Longrightarrow> ok_result vt env (f y ys)) \<Longrightarrow>
   ok_result vt env (case x of [] \<Rightarrow> a | y # ys \<Rightarrow> f y ys)"
  by (cases x) simp_all

lemmas ok_result_intros =
  ok_result_if ok_result_bind ok_result_option ok_result_pair ok_result_json ok_result_list

lemma min_max_loop_ok:
  assumes "\<And>a env. a \<in> set args \<Longrightarrow> ok_result vt env (term_to_z3 rv vt a env)"
  shows "ok_result vt env (min_max_loop rv vt is_min args r env)"
  using assms
proof (induction args arbitrary: r env)
  case Nil
  then show ?case by simp
next
  case (Cons a args)
  show ?case
    unfolding min_max_loop.simps
    by (rule ok_result_bind) (simp_all add: Cons)
qed

lemma term_ok: "ok_result vt env (term_to_z3 rv vt t env)"
proof (induction "size t" arbitrary: t env rule: less_induct)
  case less
  show ?case
  proof (cases t)
    case (JObj d)
    have IH: "ok_result vt env' (term_to_z3 rv vt v env')" if "map_of d k = Some v" for k v env'
      using less [of v env'] size_map_of [OF that] JObj by simp
    have IH2: "ok_result vt env' (term_to_z3 rv vt a env')"
      if "py_get_list d k = JArr args" "a \<in> set args" for k a args env'
    proof -
      from that(1) have "map_of d k = Some (JArr args) \<or> args = []"
        by (auto simp: py_get_list_def split: option.splits)
      with that(2) have m: "map_of d k = Some (JArr args)" by auto
      have "size a < Suc (size_list size args)"
        using that(2) by (induction args) auto
      with size_map_of [OF m] have "size a < size t" using JObj by simp
      then show ?thesis by (rule less)
    qed
    show ?thesis
      unfolding JObj term_to_z3.simps Let_def
      apply (intro ok_result_intros)
      apply simp_all
      apply (auto intro: IH)[7]
      apply (rule IH2, assumption, simp)
      apply (rule min_max_loop_ok, rule IH2, assumption, simp)
      done
  qed simp_all
qed

lemma bind_vars_ok: "ok_result vt env (bind_vars vt names env)"
proof (induction names arbitrary: env)
  case Nil
  then show ?case by simp
next
  case (Cons n names)
  have "ok_result vt env (bind_vars vt names (AList.update n (mk_var vt n) env))"
    by (rule ok_result_weaken [OF env_extends_update Cons])
  then show ?case
    by (cases "bind_vars vt names (AList.update n (mk_var vt n) env)")
       (auto simp: ok_result_def)
qed

lemma formulas_ok_aux:
  assumes "\<And>a env. a \<in> set args \<Longrightarrow> ok_result vt env (formula_to_z3 rv vt a env)"
  shows "ok_result vt env (formulas_to_z3 rv vt args env)"
  using assms
proof (induction args arbitrary: env)
  case Nil
  then show ?case by simp
next
  case (Cons a args)
  show ?case
    unfolding formulas_to_z3.simps
    by (intro ok_result_bind) (simp_all add: Cons)
qed

lemma formula_ok: "ok_result vt env (formula_to_z3 rv vt f env)"
proof (induction "size f" arbitrary: f env rule: less_induct)
  case less
  show ?case
  proof (cases f)
    case (JObj d)
    have IH: "ok_result vt env' (formula_to_z3 rv vt v env')" if "map_of d k = Some v" for k v env'
      using less [of v env'] size_map_of [OF that] JObj by simp
    have IH2: "ok_result vt env' (formula_to_z3 rv vt a env')"
      if "py_get_list d k = JArr args" "a \<in> set args" for k a args env'
    proof -
      from that(1) have "map_of d k = Some (JArr args) \<or> args = []"
        by (auto simp: py_get_list_def split: option.splits)
      with that(2) have m: "map_of d k = Some (JArr args)" by auto
      have "size a < Suc (size_list size args)"
        using that(2) by (induction args) auto
      with size_map_of [OF m] have "size a < size f" using JObj by simp
      then show ?thesis by (rule less)
    qed
    show ?thesis
      unfolding JObj formula_to_z3.simps Let_def
      apply (intro ok_result_intros term_ok bind_vars_ok)
      apply simp_all
      apply (rule formulas_ok_aux, rule IH2, assumption, assumption)
      apply (auto intro: IH)[4]
      done
  qed simp_all
qed

lemma formulas_ok: "ok_result vt env (formulas_to_z3 rv vt fs env)"
  by (rule formulas_ok_aux) (rule formula_ok)

lemma canonical_update:
  "canonical vt env \<Longrightarrow> canonical vt (AList.update n (mk_var vt n) env)"
  unfolding canonical_def update_conv' by auto

lemma canonical_declare_aux:
  "canonical vt env \<Longrightarrow>
   canonical vt (fold (\<lambda>name env. AList.update (JStr name) (mk_var vt (JStr name)) env) dv env)"
proof (induction dv arbitrary: env)
  case Nil
  then show ?case by simp
next
  case (Cons a dv)
  from Cons.prems have "canonical vt (AList.update (JStr a) (mk_var vt (JStr a)) env)"
    by (rule canonical_update)
  then show ?case using Cons.IH by simp
qed

lemma canonical_declare: "canonical vt (declare_vars vt dv)"
  unfolding declare_vars_def by (rule canonical_declare_aux) (simp add: canonical_def)

lemma keys_declare_aux:
  "fst ` set (fold (\<lambda>name env. AList.update (JStr name) (mk_var vt (JStr name)) env) dv env)
     = JStr ` set dv \<union> fst ` set env"
  by (induction dv arbitrary: env) (auto simp: dom_update)

lemma keys_declare: "fst ` set (declare_vars vt dv) = JStr ` set dv"
  unfolding declare_vars_def by (simp add: keys_declare_aux)

lemma final_query_extends:
  assumes "final_query S vt env cur goal = Inr (q, env2)"
  shows "env_extends vt env env2"
proof -
  from assms obtain zs env1 zc where
    a: "formulas_to_z3 (realval_ok S) vt cur env = Inr (zs, env1)" and
    b: "formula_to_z3 (realval_ok S) vt goal env1 = Inr (zc, env2)"
    by (auto simp: final_query_def split: sum.splits)
  from formulas_ok [of vt env "realval_ok S" cur] a have "env_extends vt env env1" by simp
  moreover from formula_ok [of vt env1 "realval_ok S" goal] b have "env_extends vt env1 env2" by simp
  ultimately show ?thesis by (rule env_extends_trans)
qed

lemma declared_in_final_env:
  assumes "final_query S vt (declare_vars vt dv) cur goal = Inr (q, env2)" and "n \<in> set dv"
  shows "map_of env2 (JStr n) = Some (mk_var vt (JStr n))"
proof -
  have "JStr n \<in> fst ` set (declare_vars vt dv)" using assms(2) by (simp add: keys_declare)
  then obtain c where c: "map_of (declare_vars vt dv) (JStr n) = Some c"
    by (metis domD dom_map_of_conv_image_fst)
  then have "c = mk_var vt (JStr n)" using canonical_declare by (simp add: canonical_def)
  moreover have "map_of (declare_vars vt dv) \<subseteq>\<^sub>m map_of env2"
    using final_query_extends [OF assms(1)] canonical_declare by (simp add: env_extends_def)
  ultimately show ?thesis using c by (metis domI map_le_def)
qed

lemma map_of_model:
  "map_of (map (\<lambda>(name, v). (name, g v)) env) n = map_option g (map_of env n)"
  by (induction env) auto

lemma same_z_simps [simp]:
  "same_z vt (Inl e) r' = (r' = Inl e)"
  "same_z vt (Inr (z, e1)) r' = (\<exists>e2. r' = Inr (z, e2) \<and> canonical vt e1 \<and> canonical vt e2)"
  by (simp_all add: same_z_def)

lemma same_z_bind:
  assumes "same_z vt r r'"
    and "\<And>z e1 e2. canonical vt e1 \<Longrightarrow> canonical vt e2 \<Longrightarrow> same_z vt (k z e1) (k' z e2)"
  shows "same_z vt (case r of Inl e \<Rightarrow> Inl e | Inr (z, env1) \<Rightarrow> k z env1)
                   (case r' of Inl e \<Rightarrow> Inl e | Inr (z, env1) \<Rightarrow> k' z env1)"
proof (cases r)
  case (Inl e)
  with assms(1) show ?thesis by simp
next
  case (Inr p)
  obtain z e1 where p: "p = (z, e1)" by (cases p)
  from assms(1) Inr p obtain e2 where
    r': "r' = Inr (z, e2)" and c: "canonical vt e1" "canonical vt e2" by auto
  from assms(2) [OF c] Inr p r' show ?thesis by simp
qed

lemma same_z_if:
  "(c \<Longrightarrow> same_z vt a a') \<Longrightarrow> (\<not> c \<Longrightarrow> same_z vt b b') \<Longrightarrow>
   same_z vt (if c then a else b) (if c then a' else b')"
  by simp

lemma same_z_option:
  "(x = None \<Longrightarrow> same_z vt a a') \<Longrightarrow> (\<And>v. x = Some v \<Longrightarrow> same_z vt (f v) (f' v)) \<Longrightarrow>
   same_z vt (case x of None \<Rightarrow> a | Some v \<Rightarrow> f v) (case x of None \<Rightarrow> a' | Some v \<Rightarrow> f' v)"
  by (cases x) simp_all

lemma same_z_pair:
  "(\<And>a b. p = (a, b) \<Longrightarrow> same_z vt (f a b) (f' a b)) \<Longrightarrow>
   same_z vt (case p of (a, b) \<Rightarrow> f a b) (case p of (a, b) \<Rightarrow> f' a b)"
  by (cases p) simp

lemma same_z_json:
  "(x = JNull \<Longrightarrow> same_z vt a a') \<Longrightarrow> (\<And>s. x = JStr s \<Longrightarrow> same_z vt (b s) (b' s)) \<Longrightarrow>
   (\<And>xs. x = JArr xs \<Longrightarrow> same_z vt (c xs) (c' xs)) \<Longrightarrow>
   (\<And>d. x = JObj d \<Longrightarrow> same_z vt (e d) (e' d)) \<Longrightarrow>
   same_z vt (case x of JNull \<Rightarrow> a | JStr s \<Rightarrow> b s | JArr xs \<Rightarrow> c xs | JObj d \<Rightarrow> e d)
             (case x of JNull \<Rightarrow> a' | JStr s \<Rightarrow> b' s | JArr xs \<Rightarrow> c' xs | JObj d \<Rightarrow> e' d)"
  by (cases x) simp_all

lemma same_z_list:
  "(x = [] \<Longrightarrow> same_z vt a a') \<Longrightarrow> (\<And>y ys. x = y # ys \<Longrightarrow> same_z vt (f y ys) (f' y ys)) \<Longrightarrow>
   same_z vt (case x of [] \<Rightarrow> a | y # ys \<Rightarrow> f y ys) (case x of [] \<Rightarrow> a' | y # ys \<Rightarrow> f' y ys)"
  by (cases x) simp_all

lemma same_z_var:
  assumes "canonical vt env" and "canonical vt env'"
  shows "same_z vt
     (case map_of env name of
        Some c \<Rightarrow> Inr (c, env)
      | None \<Rightarrow> Inr (mk_var vt name, AList.update name (mk_var vt name) env))
     (case map_of env' name of
        Some c \<Rightarrow> Inr (c, env')
      | None \<Rightarrow> Inr (mk_var vt name, AList.update name (mk_var vt name) env'))"
proof -
  have u: "canonical vt (AList.update name (mk_var vt name) env)"
    using assms(1) by (rule canonical_update)
  have u': "canonical vt (AList.update name (mk_var vt name) env')"
    using assms(2) by (rule canonical_update)
  have a: "c = mk_var vt name" if "map_of env name = Some c" for c
    using assms(1) that unfolding canonical_def by blast
  have a': "c = mk_var vt name" if "map_of env' name = Some c" for c
    using assms(2) that unfolding canonical_def by blast
  show ?thesis
    by (cases "map_of env name"; cases "map_of env' name")
       (auto simp: assms u u' dest: a a')
qed

lemmas same_z_intros =
  same_z_if same_z_bind same_z_option same_z_pair same_z_json same_z_list

lemma min_max_loop_same:
  assumes "\<And>a e1 e2. a \<in> set args \<Longrightarrow> canonical vt e1 \<Longrightarrow> canonical vt e2 \<Longrightarrow>
             same_z vt (term_to_z3 rv vt a e1) (term_to_z3 rv vt a e2)"
    and "canonical vt env" and "canonical vt env'"
  shows "same_z vt (min_max_loop rv vt is_min args r env) (min_max_loop rv vt is_min args r env')"
  using assms
proof (induction args arbitrary: r env env')
  case Nil
  then show ?case by simp
next
  case (Cons a args)
  show ?case
    unfolding min_max_loop.simps
    by (rule same_z_bind) (simp_all add: Cons)
qed

lemma term_same:
  "canonical vt env \<Longrightarrow> canonical vt env' \<Longrightarrow>
   same_z vt (term_to_z3 rv vt t env) (term_to_z3 rv vt t env')"
proof (induction "size t" arbitrary: t env env' rule: less_induct)
  case less
  note c = less.prems
  show ?case
  proof (cases t)
    case (JObj d)
    have IH: "same_z vt (term_to_z3 rv vt v e1) (term_to_z3 rv vt v e2)"
      if "map_of d k = Some v" "canonical vt e1" "canonical vt e2" for k v e1 e2
      using less.hyps [of v e1 e2] size_map_of [OF that(1)] that(2,3) JObj by simp
    have IH2: "same_z vt (term_to_z3 rv vt a e1) (term_to_z3 rv vt a e2)"
      if "py_get_list d k = JArr args" "a \<in> set args" "canonical vt e1" "canonical vt e2"
      for k a args e1 e2
    proof -
      from that(1) have "map_of d k = Some (JArr args) \<or> args = []"
        by (auto simp: py_get_list_def split: option.splits)
      with that(2) have m: "map_of d k = Some (JArr args)" by auto
      have "size a < Suc (size_list size args)"
        using that(2) by (induction args) auto
      with size_map_of [OF m] have "size a < size t" using JObj by simp
      then show ?thesis using that(3,4) by (rule less.hyps)
    qed
    show ?thesis
      unfolding JObj term_to_z3.simps Let_def
      apply (intro same_z_intros same_z_var c)
      apply (simp_all add: c)
      apply (auto intro: IH c)[7]
      apply (rule IH2, assumption, simp, rule c, rule c)
      apply (rule min_max_loop_same, rule IH2, assumption, simp, assumption, assumption,
             assumption, assumption)
      done
  qed simp_all
qed

lemma bind_vars_same:
  "canonical vt env \<Longrightarrow> canonical vt env' \<Longrightarrow>
   same_z vt (bind_vars vt names env) (bind_vars vt names env')"
proof (induction names arbitrary: env env')
  case Nil
  then show ?case by simp
next
  case (Cons n names)
  have "same_z vt (bind_vars vt names (AList.update n (mk_var vt n) env))
                  (bind_vars vt names (AList.update n (mk_var vt n) env'))"
    by (rule Cons.IH) (rule canonical_update, rule Cons.prems)+
  then show ?case
    by (cases "bind_vars vt names (AList.update n (mk_var vt n) env)") auto
qed

lemma formulas_same_aux:
  assumes "\<And>a e1 e2. a \<in> set args \<Longrightarrow> canonical vt e1 \<Longrightarrow> canonical vt e2 \<Longrightarrow>
             same_z vt (formula_to_z3 rv vt a e1) (formula_to_z3 rv vt a e2)"
    and "canonical vt env" and "canonical vt env'"
  shows "same_z vt (formulas_to_z3 rv vt args env) (formulas_to_z3 rv vt args env')"
  using assms
proof (induction args arbitrary: env env')
  case Nil
  then show ?case by simp
next
  case (Cons a args)
  show ?case
    unfolding formulas_to_z3.simps
    by (intro same_z_bind) (simp_all add: Cons)
qed

lemma formula_same:
  "canonical vt env \<Longrightarrow> canonical vt env' \<Longrightarrow>
   same_z vt (formula_to_z3 rv vt f env) (formula_to_z3 rv vt f env')"
proof (induction "size f" arbitrary: f env env' rule: less_induct)
  case less
  note c = less.prems
  show ?case
  proof (cases f)
    case (JObj d)
    have IH: "same_z vt (formula_to_z3 rv vt v e1) (formula_to_z3 rv vt v e2)"
      if "map_of d k = Some v" "canonical vt e1" "canonical vt e2" for k v e1 e2
      using less.hyps [of v e1 e2] size_map_of [OF that(1)] that(2,3) JObj by simp
    have IH2: "same_z vt (formula_to_z3 rv vt a e1) (formula_to_z3 rv vt a e2)"
      if "py_get_list d k = JArr args" "a \<in> set args" "canonical vt e1" "canonical vt e2"
      for k a args e1 e2
    proof -
      from that(1) have "map_of d k = Some (JArr args) \<or> args = []"
        by (auto simp: py_get_list_def split: option.splits)
      with that(2) have m: "map_of d k = Some (JArr args)" by auto
      have "size a < Suc (size_list size args)"
        using that(2) by (induction args) auto
      with size_map_of [OF m] have "size a < size f" using JObj by simp
      then show ?thesis using that(3,4) by (rule less.hyps)
    qed
    show ?thesis
      unfolding JObj formula_to_z3.simps Let_def
      apply (intro same_z_intros term_same bind_vars_same c)
      apply (simp_all add: c)
      apply (rule formulas_same_aux, rule IH2, assumption, assumption, assumption, assumption,
             rule c, rule c)
      apply (auto intro: IH c)[4]
      done
  qed simp_all
qed

lemma formula_indep:
  assumes "canonical vt env" and "canonical vt env'"
    and "formula_to_z3 rv vt f env = Inr (z, e1)"
  shows "\<exists>e2. formula_to_z3 rv vt f env' = Inr (z, e2) \<and> canonical vt e2"
  using formula_same [OF assms(1,2), of rv f] assms(3) by auto

lemma formulas_from_elems:
  "canonical vt env \<Longrightarrow> canonical vt env0 \<Longrightarrow>
   list_all2 (\<lambda>a z. \<exists>e. formula_to_z3 rv vt a env0 = Inr (z, e)) fs zs \<Longrightarrow>
   \<exists>env'. formulas_to_z3 rv vt fs env = Inr (zs, env') \<and> canonical vt env'"
proof (induction fs arbitrary: zs env)
  case Nil
  then show ?case by simp
next
  case (Cons a fs)
  from Cons.prems(3) obtain z zs' e where
    zs: "zs = z # zs'" and
    a: "formula_to_z3 rv vt a env0 = Inr (z, e)" and
    r: "list_all2 (\<lambda>a z. \<exists>e. formula_to_z3 rv vt a env0 = Inr (z, e)) fs zs'"
    by (auto simp: list_all2_Cons1)
  from formula_indep [OF Cons.prems(2,1) a] obtain e2 where
    a2: "formula_to_z3 rv vt a env = Inr (z, e2)" and c2: "canonical vt e2" by blast
  from Cons.IH [OF c2 Cons.prems(2) r] obtain env' where
    "formulas_to_z3 rv vt fs e2 = Inr (zs', env')" and "canonical vt env'" by blast
  with a2 zs show ?case by simp
qed

lemma formulas_elems:
  "canonical vt env \<Longrightarrow> canonical vt env0 \<Longrightarrow>
   formulas_to_z3 rv vt fs env = Inr (zs, env') \<Longrightarrow>
   list_all2 (\<lambda>a z. \<exists>e. formula_to_z3 rv vt a env0 = Inr (z, e)) fs zs"
proof (induction fs arbitrary: zs env)
  case Nil
  then show ?case by simp
next
  case (Cons a fs)
  from Cons.prems(3) obtain z e1 zs' where
    a: "formula_to_z3 rv vt a env = Inr (z, e1)" and
    r: "formulas_to_z3 rv vt fs e1 = Inr (zs', env')" and zs: "zs = z # zs'"
    by (auto split: sum.splits)
  from formula_ok [of vt env rv a] a Cons.prems(1) have c1: "canonical vt e1"
    by (simp add: env_extends_def)
  from formula_indep [OF Cons.prems(1,2) a] obtain e2 where
    "formula_to_z3 rv vt a env0 = Inr (z, e2)" by blast
  with Cons.IH [OF c1 Cons.prems(2) r] zs show ?case by auto
qed

lemma final_query_from_elems:
  assumes "list_all2 (\<lambda>a z. \<exists>e. formula_to_z3 (realval_ok S) vt a (declare_vars vt dv) = Inr (z, e))
             cur zs"
    and "formula_to_z3 (realval_ok S) vt goal (declare_vars vt dv) = Inr (zc, e)"
  shows "\<exists>env2. final_query S vt (declare_vars vt dv) cur goal = Inr (zs @ [ZNot zc], env2)"
proof -
  from formulas_from_elems [OF canonical_declare canonical_declare assms(1)] obtain env1 where
    a: "formulas_to_z3 (realval_ok S) vt cur (declare_vars vt dv) = Inr (zs, env1)" and
    c: "canonical vt env1" by blast
  from formula_indep [OF canonical_declare c assms(2)] obtain env2 where
    "formula_to_z3 (realval_ok S) vt goal env1 = Inr (zc, env2)" by blast
  with a show ?thesis by (simp add: final_query_def)
qed

section \<open>Intermediate steps\<close>

lemma translate_all_elems:
  "translate_all S vt env fs = Inr zs \<Longrightarrow>
   list_all2 (\<lambda>a z. \<exists>e. formula_to_z3 (realval_ok S) vt a env = Inr (z, e)) fs zs"
  by (induction fs arbitrary: zs)
     (auto simp: translate_copy_def split: sum.splits)

lemma translate_all_from_elems:
  "list_all2 (\<lambda>a z. \<exists>e. formula_to_z3 (realval_ok S) vt a env = Inr (z, e)) fs zs \<Longrightarrow>
   translate_all S vt env fs = Inr zs"
  by (induction fs arbitrary: zs)
     (auto simp: translate_copy_def list_all2_Cons1)

text \<open>
  Claim C3. A step that is not a cases block and has a formula \<open>F\<close>. Let \<open>zs\<close> hold the
  translation of every live assumption of \<open>cur\<close>, one for each and in their order, and
  \<open>z\<close> the translation of \<open>F\<close>, each made by \<open>formula_to_z3\<close> from the environment \<open>env\<close>.
  The query is \<open>zs\<close> followed by \<open>Not z\<close>. On unsat the step is recorded as proven and the
  remaining steps run with \<open>cur @ [F]\<close>; on sat it is recorded as disproven with the model
  of that query, which gives the value text of every constant of \<open>env\<close>, and the
  remaining steps run with \<open>cur\<close>; on unknown it is recorded as unknown and the remaining
  steps run with \<open>cur\<close>.
\<close>

theorem single_step:
  assumes "py_get d ''type'' \<noteq> JStr ''cases''"
    and "py_get d ''formula'' = F" and "F \<noteq> JNull"
    and "list_all2 (\<lambda>a z. \<exists>e. formula_to_z3 (realval_ok S) vt a env = Inr (z, e)) cur zs"
    and "formula_to_z3 (realval_ok S) vt F env = Inr (z, e)"
  shows "run_steps S vt env i (JObj d # rest) (cur, srs) =
    (case check S (zs @ [ZNot z]) of
       Unsat \<Rightarrow> run_steps S vt env (Suc i) rest
                  (cur @ [F], srs @ [PDict [(''step'', PInt (int i + 1)), (''ok'', PBool True),
                                           (''status'', PStr ''proven'')]])
     | Sat \<Rightarrow> run_steps S vt env (Suc i) rest
                  (cur, srs @ [PDict [(''step'', PInt (int i + 1)), (''ok'', PBool False),
                                      (''status'', PStr ''disproven''),
                                      (''model'',
                                       PModel (map (\<lambda>(name, v). (name, model_eval S (zs @ [ZNot z]) v))
                                                   env))]])
     | Unknown \<Rightarrow> run_steps S vt env (Suc i) rest
                  (cur, srs @ [PDict [(''step'', PInt (int i + 1)), (''ok'', PBool False),
                                      (''status'', PStr ''unknown'')]]))"
proof -
  have "translate_all S vt env cur = Inr zs"
    using assms(4) by (rule translate_all_from_elems)
  moreover have "translate_copy S vt env F = Inr z"
    using assms(5) by (simp add: translate_copy_def)
  ultimately show ?thesis
    using assms(1-3)
    by (cases "check S (zs @ [ZNot z])") (simp_all add: run_step_def Let_def model_out_def)
qed

theorem single_step_witness:
  "run_steps square_solver Map.empty [(JStr ''x'', ZReal (JStr ''x''))] 0
     [JObj [(''formula'', x_gt_0)], JObj [(''formula'', xx_gt_0)]] ([x_ne_0], [])
   = Inr ([x_ne_0, xx_gt_0],
          [PDict [(''step'', PInt 1), (''ok'', PBool False), (''status'', PStr ''disproven''),
                  (''model'', PModel [(JStr ''x'', ''-1'')])],
           PDict [(''step'', PInt 2), (''ok'', PBool True), (''status'', PStr ''proven'')]])"
proof -
  let ?env = "[(JStr ''x'', ZReal (JStr ''x''))]"
  let ?X = "ZReal (JStr ''x'')"
  let ?Z = "ZRealVal (JStr ''0'')"
  let ?srs = "[PDict [(''step'', PInt 1), (''ok'', PBool False), (''status'', PStr ''disproven''),
                      (''model'', PModel [(JStr ''x'', ''-1'')])]]"
  have t1: "py_get [(''formula'', x_gt_0)] ''type'' \<noteq> JStr ''cases''"
    by (simp add: py_get_def)
  have g1: "py_get [(''formula'', x_gt_0)] ''formula'' = x_gt_0"
    by (simp add: py_get_def ex_defs rel_def)
  have n1: "x_gt_0 \<noteq> JNull" by (simp add: ex_defs rel_def)
  have t2: "py_get [(''formula'', xx_gt_0)] ''type'' \<noteq> JStr ''cases''"
    by (simp add: py_get_def)
  have g2: "py_get [(''formula'', xx_gt_0)] ''formula'' = xx_gt_0"
    by (simp add: py_get_def ex_defs rel_def)
  have n2: "xx_gt_0 \<noteq> JNull" by (simp add: ex_defs rel_def)
  have a: "list_all2 (\<lambda>a z. \<exists>e. formula_to_z3 (realval_ok square_solver) Map.empty a ?env = Inr (z, e))
             [x_ne_0] [ZNe ?X ?Z]"
    by (simp add: square_solver_def ex_defs ast_defs)
  have f1: "formula_to_z3 (realval_ok square_solver) Map.empty x_gt_0 ?env = Inr (ZGt ?X ?Z, ?env)"
    by (simp add: square_solver_def ex_defs ast_defs)
  have f2: "formula_to_z3 (realval_ok square_solver) Map.empty xx_gt_0 ?env
              = Inr (ZGt (ZMul ?X ?X) ?Z, ?env)"
    by (simp add: square_solver_def ex_defs ast_defs)
  have c1: "check square_solver [ZNe ?X ?Z, ZNot (ZGt ?X ?Z)] = Sat"
    by (simp add: square_solver_def)
  have c2: "check square_solver [ZNe ?X ?Z, ZNot (ZGt (ZMul ?X ?X) ?Z)] = Unsat"
    by (simp add: square_solver_def)
  have m: "model_eval square_solver q v = ''-1''" for q v
    by (simp add: square_solver_def)
  have s1: "run_steps square_solver Map.empty ?env 0
              [JObj [(''formula'', x_gt_0)], JObj [(''formula'', xx_gt_0)]] ([x_ne_0], [])
            = run_steps square_solver Map.empty ?env (Suc 0) [JObj [(''formula'', xx_gt_0)]]
                ([x_ne_0], ?srs)"
    using single_step [OF t1 g1 n1 a f1, where i = 0 and rest = "[JObj [(''formula'', xx_gt_0)]]"
                         and srs = "[]"]
    by (simp add: c1 m del: run_steps.simps)
  have s2: "run_steps square_solver Map.empty ?env (Suc 0) [JObj [(''formula'', xx_gt_0)]]
              ([x_ne_0], ?srs)
            = Inr ([x_ne_0, xx_gt_0],
                   ?srs @ [PDict [(''step'', PInt 2), (''ok'', PBool True), (''status'', PStr ''proven'')]])"
    using single_step [OF t2 g2 n2 a f2, where i = "Suc 0" and rest = "[]" and srs = ?srs]
    by (simp add: c2 del: run_steps.simps) simp
  from s1 s2 show ?thesis by simp
qed

section \<open>The final verdict\<close>

text \<open>
  Claim C1. The steps have run and left the live assumptions \<open>cur\<close>. Let \<open>zs\<close> hold the
  translation of every assumption of \<open>cur\<close>, one for each and in their order, and \<open>zc\<close> the
  translation of the claim, each made by \<open>formula_to_z3\<close> from the environment of the
  declared variables (the shared environment of the final query gives the same terms,
  by \<open>formula_same\<close>). The verdict is decided by the solver's answer on \<open>zs @ [Not zc]\<close>:
  unsat gives ok = True, status proven and no model field; sat gives ok = False, status
  disproven and a model that maps every declared variable to the value text of its
  constant in the model of that query; unknown gives ok = False, status unknown and no
  model field. Names are strings here: no variable of the final environment is called
  \<^verbatim>\<open>None\<close>.
\<close>

theorem prove_verdict:
  assumes "run_steps S vt (declare_vars vt dv) 0 stps (asms, []) = Inr (cur, srs)"
    and "list_all2 (\<lambda>a z. \<exists>e. formula_to_z3 (realval_ok S) vt a (declare_vars vt dv) = Inr (z, e))
           cur zs"
    and "formula_to_z3 (realval_ok S) vt goal (declare_vars vt dv) = Inr (zc, e)"
    and "\<forall>q env2. final_query S vt (declare_vars vt dv) cur goal = Inr (q, env2)
           \<longrightarrow> JNull \<notin> fst ` set env2"
  shows "case check S (zs @ [ZNot zc]) of
           Unsat \<Rightarrow>
             field (prove S asms goal dv vt stps) ''ok'' = Some (PBool True) \<and>
             field (prove S asms goal dv vt stps) ''status'' = Some (PStr ''proven'') \<and>
             field (prove S asms goal dv vt stps) ''model'' = None
         | Sat \<Rightarrow>
             field (prove S asms goal dv vt stps) ''ok'' = Some (PBool False) \<and>
             field (prove S asms goal dv vt stps) ''status'' = Some (PStr ''disproven'') \<and>
             (\<exists>m. field (prove S asms goal dv vt stps) ''model'' = Some (PModel m) \<and>
                  (\<forall>n \<in> set dv. map_of m (JStr n)
                       = Some (model_eval S (zs @ [ZNot zc]) (mk_var vt (JStr n)))))
         | Unknown \<Rightarrow>
             field (prove S asms goal dv vt stps) ''ok'' = Some (PBool False) \<and>
             field (prove S asms goal dv vt stps) ''status'' = Some (PStr ''unknown'') \<and>
             field (prove S asms goal dv vt stps) ''model'' = None"
proof -
  let ?q = "zs @ [ZNot zc]"
  from final_query_from_elems [OF assms(2,3)] obtain env2 where
    fq: "final_query S vt (declare_vars vt dv) cur goal = Inr (?q, env2)" by blast
  with assms(4) have names: "JNull \<notin> fst ` set env2" by blast
  show ?thesis
  proof (cases "check S ?q")
    case Sat
    have "\<forall>n \<in> set dv.
            map_of (map (\<lambda>(name, v). (name, model_eval S ?q v)) env2) (JStr n)
              = Some (model_eval S ?q (mk_var vt (JStr n)))"
      using declared_in_final_env [OF fq] by (simp add: map_of_model)
    then show ?thesis
      using assms(1) names fq Sat
      by (simp add: prove_def prove_body_def format_counterexample_def with_steps_def
                    model_out_def)
  next
    case Unsat
    then show ?thesis
      using assms(1) fq by (simp add: prove_def prove_body_def with_steps_def)
  next
    case Unknown
    then show ?thesis
      using assms(1) fq by (simp add: prove_def prove_body_def with_steps_def)
  qed
qed

theorem prove_verdict_witness:
  "field (prove square_solver [x_ne_0] xx_gt_0 [''x''] Map.empty []) ''ok'' = Some (PBool True) \<and>
   field (prove square_solver [x_ne_0] xx_gt_0 [''x''] Map.empty []) ''status''
     = Some (PStr ''proven'') \<and>
   field (prove square_solver [x_ne_0] x_gt_0 [''x''] Map.empty [JObj [(''formula'', xx_gt_0)]])
     ''status'' = Some (PStr ''disproven'') \<and>
   (\<exists>m. field (prove square_solver [x_ne_0] x_gt_0 [''x''] Map.empty
                   [JObj [(''formula'', xx_gt_0)]]) ''model'' = Some (PModel m) \<and>
        map_of m (JStr ''x'') = Some ''-1'')"
proof -
  let ?env = "[(JStr ''x'', ZReal (JStr ''x''))]"
  let ?X = "ZReal (JStr ''x'')"
  let ?Z = "ZRealVal (JStr ''0'')"
  have d: "declare_vars Map.empty [''x''] = ?env"
    by (simp add: declare_vars_def mk_var_def)
  have r1: "run_steps square_solver Map.empty (declare_vars Map.empty [''x'']) 0 []
              ([x_ne_0], []) = Inr ([x_ne_0], [])"
    by simp
  have l1: "list_all2 (\<lambda>a z. \<exists>e. formula_to_z3 (realval_ok square_solver) Map.empty a
                                   (declare_vars Map.empty [''x'']) = Inr (z, e))
              [x_ne_0] [ZNe ?X ?Z]"
    by (simp add: d square_solver_def ex_defs ast_defs)
  have g1: "formula_to_z3 (realval_ok square_solver) Map.empty xx_gt_0
              (declare_vars Map.empty [''x'']) = Inr (ZGt (ZMul ?X ?X) ?Z, ?env)"
    by (simp add: d square_solver_def ex_defs ast_defs)
  have n1: "\<forall>q env2. final_query square_solver Map.empty (declare_vars Map.empty [''x''])
                         [x_ne_0] xx_gt_0 = Inr (q, env2) \<longrightarrow> JNull \<notin> fst ` set env2"
    by (simp add: d final_query_def square_solver_def ex_defs ast_defs)
  have c1: "check square_solver [ZNe ?X ?Z, ZNot (ZGt (ZMul ?X ?X) ?Z)] = Unsat"
    by (simp add: square_solver_def)
  have r2: "run_steps square_solver Map.empty (declare_vars Map.empty [''x'']) 0
              [JObj [(''formula'', xx_gt_0)]] ([x_ne_0], [])
            = Inr ([x_ne_0, xx_gt_0],
                   [PDict [(''step'', PInt 1), (''ok'', PBool True), (''status'', PStr ''proven'')]])"
    by (simp add: d run_step_def translate_copy_def square_solver_def ex_defs ast_defs)
  have l2: "list_all2 (\<lambda>a z. \<exists>e. formula_to_z3 (realval_ok square_solver) Map.empty a
                                   (declare_vars Map.empty [''x'']) = Inr (z, e))
              [x_ne_0, xx_gt_0] [ZNe ?X ?Z, ZGt (ZMul ?X ?X) ?Z]"
    by (simp add: d square_solver_def ex_defs ast_defs)
  have g2: "formula_to_z3 (realval_ok square_solver) Map.empty x_gt_0
              (declare_vars Map.empty [''x'']) = Inr (ZGt ?X ?Z, ?env)"
    by (simp add: d square_solver_def ex_defs ast_defs)
  have n2: "\<forall>q env2. final_query square_solver Map.empty (declare_vars Map.empty [''x''])
                         [x_ne_0, xx_gt_0] x_gt_0 = Inr (q, env2) \<longrightarrow> JNull \<notin> fst ` set env2"
    by (simp add: d final_query_def square_solver_def ex_defs ast_defs)
  have c2: "check square_solver [ZNe ?X ?Z, ZGt (ZMul ?X ?X) ?Z, ZNot (ZGt ?X ?Z)] = Sat"
    by (simp add: square_solver_def)
  have m: "model_eval square_solver q v = ''-1''" for q v
    by (simp add: square_solver_def)
  from prove_verdict [OF r1 l1 g1 n1] prove_verdict [OF r2 l2 g2 n2]
  show ?thesis by (simp add: c1 c2 m)
qed

section \<open>Quantifiers and the environment\<close>

text \<open>
  Claim C4 as stated fails: the translator writes the bound names into the environment
  it is given and returns it so. A name that was absent is present afterwards, and in
  an environment that held another constant under that name (not one made by \<open>mk_var\<close>)
  the entry is replaced.
\<close>

theorem quantifier_env_counterexample:
  "formula_to_z3 (\<lambda>v. True) Map.empty forall_x []
     = Inr (ZForAll [ZReal (JStr ''x'')] (ZGe (ZReal (JStr ''x'')) (ZRealVal (JStr ''0''))),
            [(JStr ''x'', ZReal (JStr ''x''))]) \<and>
   formula_to_z3 (\<lambda>v. True) Map.empty forall_x [(JStr ''x'', ZInt (JStr ''x''))]
     = Inr (ZForAll [ZReal (JStr ''x'')] (ZGe (ZReal (JStr ''x'')) (ZRealVal (JStr ''0''))),
            [(JStr ''x'', ZReal (JStr ''x''))])"
  by (simp add: forall_x_def ast_defs)

lemma bind_vars_map:
  "bind_vars vt names env = Inr (vs, env1) \<Longrightarrow>
   map_of env1 = (\<lambda>k. if k \<in> set names then Some (mk_var vt k) else map_of env k)"
proof (induction names arbitrary: env vs)
  case Nil
  then show ?case by simp
next
  case (Cons n names)
  from Cons.prems obtain vs' where
    r: "bind_vars vt names (AList.update n (mk_var vt n) env) = Inr (vs', env1)"
    by (auto split: if_splits sum.splits)
  show ?case
    unfolding Cons.IH [OF r] by (auto simp: update_conv' fun_eq_iff)
qed

text \<open>
  Claim C4, amended. From a canonical environment (such is every environment inside
  \<^verbatim>\<open>prove\<close>) the translation of a quantified formula returns a canonical environment in
  which every entry that was there is unchanged, so a free constant of a bound name is
  mapped as before; the bound names are present in the returned environment.
\<close>

theorem quantifier_env:
  assumes "canonical vt env"
    and "formula_to_z3 rv vt (JObj d) env = Inr (z, env')"
    and "py_get d ''type'' = JStr ''forall'' \<or> py_get d ''type'' = JStr ''exists''"
    and "py_iter (py_get_list d ''vars'') = Some names"
  shows "canonical vt env' \<and> map_of env \<subseteq>\<^sub>m map_of env' \<and>
         (\<forall>n \<in> set names. map_of env' n = Some (mk_var vt n))"
proof -
  from formula_ok [of vt env rv "JObj d"] assms(1,2)
  have 1: "canonical vt env'" and 2: "map_of env \<subseteq>\<^sub>m map_of env'"
    by (simp_all add: env_extends_def)
  from assms(2,3,4) obtain b vs env1 body where
    bv: "bind_vars vt names env = Inr (vs, env1)" and
    bd: "formula_to_z3 rv vt b env1 = Inr (body, env')"
    by (auto simp: Let_def split: if_splits option.splits sum.splits)
  from bind_vars_ok [of vt env names] bv assms(1) have c1: "canonical vt env1"
    by (simp add: env_extends_def)
  with formula_ok [of vt env1 rv b] bd have "map_of env1 \<subseteq>\<^sub>m map_of env'"
    by (simp add: env_extends_def)
  moreover have "\<forall>n \<in> set names. map_of env1 n = Some (mk_var vt n)"
    by (simp add: bind_vars_map [OF bv])
  ultimately have "\<forall>n \<in> set names. map_of env' n = Some (mk_var vt n)"
    by (metis domI map_le_def)
  with 1 2 show ?thesis by simp
qed

theorem quantifier_env_witness:
  "canonical Map.empty [(JStr ''y'', ZReal (JStr ''y''))] \<and>
   formula_to_z3 (\<lambda>v. True) Map.empty forall_x [(JStr ''y'', ZReal (JStr ''y''))]
     = Inr (ZForAll [ZReal (JStr ''x'')] (ZGe (ZReal (JStr ''x'')) (ZRealVal (JStr ''0''))),
            [(JStr ''y'', ZReal (JStr ''y'')), (JStr ''x'', ZReal (JStr ''x''))]) \<and>
   canonical Map.empty [(JStr ''y'', ZReal (JStr ''y'')), (JStr ''x'', ZReal (JStr ''x''))] \<and>
   map_of [(JStr ''y'', ZReal (JStr ''y''))]
     \<subseteq>\<^sub>m map_of [(JStr ''y'', ZReal (JStr ''y'')), (JStr ''x'', ZReal (JStr ''x''))] \<and>
   map_of [(JStr ''y'', ZReal (JStr ''y'')), (JStr ''x'', ZReal (JStr ''x''))] (JStr ''x'')
     = Some (ZReal (JStr ''x''))"
proof -
  have c: "canonical Map.empty [(JStr ''y'', ZReal (JStr ''y''))]"
    by (simp add: canonical_def mk_var_def)
  have t: "formula_to_z3 (\<lambda>v. True) Map.empty
             (JObj [(''type'', JStr ''forall''), (''vars'', JArr [JStr ''x'']),
                    (''body'', rel ''>='' (var ''x'') (num ''0''))])
             [(JStr ''y'', ZReal (JStr ''y''))]
     = Inr (ZForAll [ZReal (JStr ''x'')] (ZGe (ZReal (JStr ''x'')) (ZRealVal (JStr ''0''))),
            [(JStr ''y'', ZReal (JStr ''y'')), (JStr ''x'', ZReal (JStr ''x''))])"
    by (simp add: ast_defs)
  from quantifier_env [OF c t, of "[JStr ''x'']"] c t show ?thesis
    by (simp add: forall_x_def ast_defs)
qed

section \<open>Cases blocks\<close>

text \<open>
  Claim C2, on the unit of scenario 5 of the specification. The cases block is reported
  as non-exhaustive, as the claim says; the overall verdict is ok = True, status proven,
  where the claim says ok = False. \<^verbatim>\<open>prove\<close> sets \<^verbatim>\<open>all_cases_ok = False\<close> at a non-exhaustive
  block and never reads it: the verdict comes from the final query
  \<open>x \<noteq> 0, \<not> (x * x > 0)\<close> alone, which is unsat.
\<close>

theorem non_exhaustive_verdict:
  "prove square_solver [x_ne_0] xx_gt_0 [''x''] Map.empty [cases_x_gt_0] =
     PDict [(''ok'', PBool True), (''status'', PStr ''proven''),
            (''step_results'', PList [PDict [(''step'', PInt 1), (''type'', PStr ''cases''),
               (''ok'', PBool False), (''status'', PStr ''non-exhaustive''),
               (''message'', PStr ''Cases may not cover all possibilities'')]])]"
  by (simp add: prove_def prove_body_def declare_vars_def run_step_def final_query_def
                translate_copy_def with_steps_def square_solver_def ex_defs ast_defs)

section \<open>Steps and the response\<close>

lemma run_steps_append:
  "run_steps S vt env i (pre @ rest) st =
     (case run_steps S vt env i pre st of
        Inl e \<Rightarrow> Inl e
      | Inr st1 \<Rightarrow> run_steps S vt env (i + length pre) rest st1)"
  by (induction pre arbitrary: i st) (auto split: sum.splits)

lemma ok_field_prove_body:
  "prove_body S asms goal dv vt stps = Inr r \<Longrightarrow>
   run_steps S vt (declare_vars vt dv) 0 stps (asms, []) = Inr (cur, srs) \<Longrightarrow>
   final_query S vt (declare_vars vt dv) cur goal = Inr (q, env2) \<Longrightarrow>
   field r ''ok'' = Some (PBool (check S q = Unsat))"
  by (auto simp: prove_body_def with_steps_def Let_def split: if_splits sum.splits)

section \<open>Malformed steps\<close>

text \<open>
  Claim C5 as stated fails: a step whose formula has an unknown kind makes \<^verbatim>\<open>prove\<close>
  return the error record for the whole unit, with no step results and no verdict on
  the goal.
\<close>

theorem malformed_step_counterexample:
  "prove unsat_solver [] (rel ''>'' (var ''x'') (num ''0'')) [''x''] Map.empty [bad_step] =
     PDict [(''ok'', PBool False), (''status'', PStr ''error''),
            (''error'', PStr ''Unknown formula type'')]"
  by (simp add: prove_def prove_body_def declare_vars_def run_step_def
                translate_copy_def unsat_solver_def bad_step_def ast_defs)

text \<open>
  Claim C5, amended. After any steps that ran without an exception, a step (not a cases
  block) whose formula fails to translate aborts the unit: \<^verbatim>\<open>prove\<close> returns the error
  record of that exception. Only a step with no formula at all is reported in the step
  results (\<^verbatim>\<open>Step missing formula\<close>), and the driver goes on with the next step under the
  same live assumptions.
\<close>

theorem malformed_step_aborts:
  assumes "run_steps S vt (declare_vars vt dv) 0 pre (asms, []) = Inr (cur, srs)"
    and "py_get d ''type'' \<noteq> JStr ''cases''"
  shows "(py_get d ''formula'' \<noteq> JNull \<and>
          translate_all S vt (declare_vars vt dv) cur = Inr zs \<and>
          translate_copy S vt (declare_vars vt dv) (py_get d ''formula'') = Inl e
          \<longrightarrow> prove S asms goal dv vt (pre @ JObj d # post) = error_response e) \<and>
         (py_get d ''formula'' = JNull
          \<longrightarrow> run_steps S vt (declare_vars vt dv) 0 (pre @ JObj d # post) (asms, [])
              = run_steps S vt (declare_vars vt dv) (Suc (length pre)) post
                  (cur, srs @ [PDict [(''step'', PInt (int (length pre) + 1)), (''ok'', PBool False),
                                      (''error'', PStr ''Step missing formula'')]]))"
  using assms
  by (simp add: prove_def prove_body_def run_steps_append run_step_def Let_def)

theorem malformed_step_aborts_witness:
  "prove unsat_solver [] (rel ''>'' (var ''x'') (num ''0'')) [] Map.empty
     [JObj [(''formula'', JObj [(''type'', JStr ''rel'')])]]
   = error_response (FormulaError ''Relational formula missing op field'')"
proof -
  have 1: "run_steps unsat_solver Map.empty (declare_vars Map.empty []) 0 [] ([], []) = Inr ([], [])"
    by simp
  have 2: "py_get [(''formula'', JObj [(''type'', JStr ''rel'')])] ''type'' \<noteq> JStr ''cases''"
    by (simp add: py_get_def)
  have 3: "translate_copy unsat_solver Map.empty (declare_vars Map.empty [])
             (py_get [(''formula'', JObj [(''type'', JStr ''rel'')])] ''formula'')
           = Inl (FormulaError ''Relational formula missing op field'')"
    by (simp add: translate_copy_def py_get_def Let_def)
  from malformed_step_aborts [OF 1 2, of "[]" "FormulaError ''Relational formula missing op field''"
         "rel ''>'' (var ''x'') (num ''0'')" "[]"] 3
  show ?thesis by (simp add: py_get_def)
qed

section \<open>Totality of \<^verbatim>\<open>prove\<close>\<close>

lemma field_with_steps:
  "k \<noteq> ''step_results'' \<Longrightarrow> field (with_steps r srs) k = map_of r k"
  by (simp add: with_steps_def map_add_def split: option.splits)

lemma status_field_prove_body:
  "prove_body S asms goal dv vt stps = Inr r \<Longrightarrow>
   run_steps S vt (declare_vars vt dv) 0 stps (asms, []) = Inr (cur, srs) \<Longrightarrow>
   final_query S vt (declare_vars vt dv) cur goal = Inr (q, env2) \<Longrightarrow>
   field r ''status'' = Some (PStr (case check S q of Unsat \<Rightarrow> ''proven''
                                    | Sat \<Rightarrow> ''disproven'' | Unknown \<Rightarrow> ''unknown''))"
  by (cases "check S q")
     (auto simp: prove_body_def field_with_steps Let_def split: if_splits sum.splits)

lemma prove_body_fields:
  assumes "prove_body S asms goal dv vt stps = Inr r"
  shows "\<exists>b s. field r ''ok'' = Some (PBool b) \<and> field r ''status'' = Some (PStr s)"
proof -
  from assms obtain cur srs q env2 where
    a: "run_steps S vt (declare_vars vt dv) 0 stps (asms, []) = Inr (cur, srs)" and
    b: "final_query S vt (declare_vars vt dv) cur goal = Inr (q, env2)"
    by (auto simp: prove_body_def Let_def split: sum.splits)
  from ok_field_prove_body [OF assms a b] status_field_prove_body [OF assms a b]
  show ?thesis by blast
qed

lemma error_response_fields:
  "field (error_response e) ''ok'' = Some (PBool False) \<and>
   field (error_response e) ''status'' = Some (PStr ''error'') \<and>
   (\<exists>m. field (error_response e) ''error'' = Some (PStr m))"
  by (cases e) simp_all

text \<open>
  Claim C10. For every solver and every input, the result of \<^verbatim>\<open>prove\<close> is a record with
  an \<open>ok\<close> field holding a boolean and a \<open>status\<close> field holding a string; and whenever an
  exception leaves the \<^verbatim>\<open>try\<close> block (a translation error or any other), the result has
  ok = False, status error and an error message.
\<close>

theorem prove_total:
  "(\<exists>b s. field (prove S asms goal dv vt stps) ''ok'' = Some (PBool b) \<and>
          field (prove S asms goal dv vt stps) ''status'' = Some (PStr s)) \<and>
   (\<forall>e. prove_body S asms goal dv vt stps = Inl e \<longrightarrow>
        field (prove S asms goal dv vt stps) ''ok'' = Some (PBool False) \<and>
        field (prove S asms goal dv vt stps) ''status'' = Some (PStr ''error'') \<and>
        (\<exists>m. field (prove S asms goal dv vt stps) ''error'' = Some (PStr m)))"
proof (cases "prove_body S asms goal dv vt stps")
  case (Inl e)
  then show ?thesis using error_response_fields [of e] by (auto simp: prove_def)
next
  case (Inr r)
  then show ?thesis using prove_body_fields [OF Inr] by (simp add: prove_def)
qed

theorem prove_total_witness:
  "prove_body unsat_solver [] (JObj []) [] Map.empty [] = Inl (FormulaError ''Formula missing type field'') \<and>
   field (prove unsat_solver [] (JObj []) [] Map.empty []) ''ok'' = Some (PBool False) \<and>
   field (prove unsat_solver [] (JObj []) [] Map.empty []) ''status'' = Some (PStr ''error'')"
proof -
  have b: "prove_body unsat_solver [] (JObj []) [] Map.empty [] = Inl (FormulaError ''Formula missing type field'')"
    by (simp add: prove_body_def declare_vars_def final_query_def py_get_def Let_def)
  from prove_total [of unsat_solver "[]" "JObj []" "[]" Map.empty "[]"] b show ?thesis
    by blast
qed

section \<open>Running the parser\<close>

lemma pbind_weak_cong: "r = r' \<Longrightarrow> pbind r k = pbind r' k"
  by simp

lemma in_ps_weak_cong: "r = r' \<Longrightarrow> in_ps r P k = in_ps r' P k"
  by simp

lemmas parser_eval = parse_def parse_statement_def parse_formula_def parse_expr_def
  parse_relation_def parse_and_def parse_let_def let_type_annotation_def let_set_membership_def
  let_initialiser_def let_record_def set_type_def set_constraint_def
  eval_nat_numeral tk_def match_def current_def advance_def expect_def relops_def in_ps_def
  new_parser_def statement_starters_def Let_def

section \<open>A second \<^verbatim>\<open>prove\<close> statement\<close>

text \<open>
  Claim C7 as stated fails: for \<^verbatim>\<open>prove x > 0\<close> followed by \<^verbatim>\<open>prove y > 0\<close> the parser returns
  the unit with the claim \<open>y > 0\<close>, and its error list is empty.
\<close>

theorem duplicate_prove_counterexample:
  "parse 40 no_files two_proves ''.'' =
     Ok \<lparr>u_vars = {''y'', ''x''}, u_var_types = Map.empty, u_assumptions = [], u_steps = [],
         u_claim = y_gt_0, u_theorems = Map.empty\<rparr>
        \<lparr>ps = \<lparr>pos = 9, variables = {''y'', ''x''}\<rparr>, assumptions = [], steps = [],
         claim = y_gt_0, var_types = Map.empty, theorems = Map.empty, base_path = ''.'',
         imported_files = {}, errors = []\<rparr>"
  by (simp add: parser_eval two_proves_def y_gt_0_def rel_def var_def num_def
           cong: pbind_weak_cong in_ps_weak_cong)

text \<open>
  Claim C7, amended. A \<^verbatim>\<open>prove\<close> statement whose formula parses sets the claim to that
  formula, whatever the claim was before, and leaves the error list as it was: a second
  \<^verbatim>\<open>prove\<close> replaces the claim of the first.
\<close>

theorem prove_statement:
  assumes "ttype (current toks (ps P)) = PROVE"
    and "parse_formula n toks (advance (ps P)) = Ok f st"
  shows "parse_statement (Suc n) fs toks P = Ok () (P\<lparr>ps := st, claim := f\<rparr>) \<and>
         errors (P\<lparr>ps := st, claim := f\<rparr>) = errors P"
  using assms by (simp add: parse_statement_def in_ps_def)

theorem prove_statement_witness:
  "parse_statement 20 no_files two_proves
     \<lparr>ps = \<lparr>pos = 5, variables = {''x''}\<rparr>, assumptions = [], steps = [],
      claim = x_gt_0, var_types = Map.empty, theorems = Map.empty, base_path = ''.'',
      imported_files = {}, errors = []\<rparr>
   = Ok () \<lparr>ps = \<lparr>pos = 9, variables = {''y'', ''x''}\<rparr>, assumptions = [], steps = [],
      claim = y_gt_0, var_types = Map.empty, theorems = Map.empty, base_path = ''.'',
      imported_files = {}, errors = []\<rparr>"
proof -
  let ?P = "\<lparr>ps = \<lparr>pos = 5, variables = {''x''}\<rparr>, assumptions = [], steps = [],
      claim = x_gt_0, var_types = Map.empty, theorems = Map.empty, base_path = ''.'',
      imported_files = {}, errors = []\<rparr>"
  have 1: "ttype (current two_proves (ps ?P)) = PROVE"
    by (simp add: current_def two_proves_def tk_def)
  have 2: "parse_formula 19 two_proves (advance (ps ?P))
             = Ok y_gt_0 \<lparr>pos = 9, variables = {''y'', ''x''}\<rparr>"
    by (simp add: parser_eval two_proves_def y_gt_0_def rel_def var_def num_def
             cong: pbind_weak_cong)
  have "Suc 19 = (20::nat)" by simp
  with prove_statement [OF 1 2, of no_files] show ?thesis by simp
qed

section \<open>A variable declared again\<close>

text \<open>
  Claim C6 as stated fails: after \<^verbatim>\<open>let x: Int\<close>, a second \<^verbatim>\<open>let x\<close> records \<^verbatim>\<open>Real\<close> for \<open>x\<close>.
\<close>

theorem redeclare_counterexample:
  "parse 40 no_files let_twice ''.'' =
     Ok \<lparr>u_vars = {''x''}, u_var_types = [''x'' \<mapsto> ''Real''], u_assumptions = [], u_steps = [],
         u_claim = x_gt_0, u_theorems = Map.empty\<rparr>
        \<lparr>ps = \<lparr>pos = 12, variables = {''x''}\<rparr>, assumptions = [], steps = [],
         claim = x_gt_0, var_types = [''x'' \<mapsto> ''Real''], theorems = Map.empty, base_path = ''.'',
         imported_files = {}, errors = []\<rparr>"
  by (simp add: parser_eval let_twice_def x_gt_0_def rel_def var_def num_def
           cong: pbind_weak_cong in_ps_weak_cong)

text \<open>
  Claim C6, amended. A \<^verbatim>\<open>let\<close> statement that returns records for its variable the type
  that this statement declares, whatever was recorded before: the type of the set when
  it has a membership in \<^verbatim>\<open>Z\<close> or \<^verbatim>\<open>N\<close> (\<^verbatim>\<open>Int\<close>) or in \<^verbatim>\<open>R\<close> or \<^verbatim>\<open>Q\<close> (\<^verbatim>\<open>Real\<close>), else the type of
  its annotation, else \<^verbatim>\<open>Real\<close>. A statement \<^verbatim>\<open>assume\<close>, \<^verbatim>\<open>prove\<close>, \<^verbatim>\<open>have\<close> or \<^verbatim>\<open>assert\<close> that
  returns leaves \<^verbatim>\<open>var_types\<close> as it was.
\<close>

theorem let_overwrites_type:
  "(ttype (current toks (ps P)) = LET \<and> parse_statement (Suc n) fs toks P = Ok () P'
    \<longrightarrow> var_types P' = (var_types P)(tvalue (current toks (advance (ps P))) \<mapsto>
          (let st1 = advance (advance (ps P));
               annotated = match toks st1 [COLON];
               ty = (if annotated \<and> ttype (current toks (advance st1)) = INT_KW
                     then ''Int'' else ''Real'');
               st2 = (if annotated then advance (advance st1) else st1);
               s = tvalue (current toks (advance st2))
           in if match toks st2 [IN] then
                (if s = ''Z'' \<or> s = ''N'' then ''Int''
                 else if s = ''R'' \<or> s = ''Q'' then ''Real'' else ty)
              else ty))) \<and>
   (ttype (current toks (ps P)) \<in> {ASSUME, PROVE, HAVE, ASSERT} \<and>
    parse_statement (Suc n) fs toks P = Ok () P'
    \<longrightarrow> var_types P' = var_types P)"
proof (intro conjI impI)
  assume a: "ttype (current toks (ps P)) = LET \<and> parse_statement (Suc n) fs toks P = Ok () P'"
  then obtain name_tok st1 ty st2 tc st3 st4 where
    1: "expect toks (advance (ps P)) IDENT = Ok name_tok st1" and
    2: "let_type_annotation toks st1 = Ok ty st2" and
    3: "let_set_membership toks st2 ty = Ok tc st3" and
    4: "let_initialiser n toks st3 = Ok () st4" and
    5: "P' = let_record (tvalue name_tok) (fst tc) (snd tc) (P\<lparr>ps := st4\<rparr>)"
    by (auto simp: parse_statement_def parse_let_def in_ps_def split: presult.splits)
  from 1 have n: "name_tok = current toks (advance (ps P))" and s1: "st1 = advance (advance (ps P))"
    by (auto simp: expect_def split: if_splits)
  from 2 have t: "ty = (if match toks st1 [COLON] \<and> ttype (current toks (advance st1)) = INT_KW
                        then ''Int'' else ''Real'')"
    and s2: "st2 = (if match toks st1 [COLON] then advance (advance st1) else st1)"
    by (auto simp: let_type_annotation_def Let_def split: if_splits)
  from 3 have "fst tc = (if match toks st2 [IN]
                         then set_type (tvalue (current toks (advance st2))) ty else ty)"
    by (auto simp: let_set_membership_def Let_def split: if_splits)
  then show "var_types P' = (var_types P)(tvalue (current toks (advance (ps P))) \<mapsto>
          (let st1 = advance (advance (ps P));
               annotated = match toks st1 [COLON];
               ty = (if annotated \<and> ttype (current toks (advance st1)) = INT_KW
                     then ''Int'' else ''Real'');
               st2 = (if annotated then advance (advance st1) else st1);
               s = tvalue (current toks (advance st2))
           in if match toks st2 [IN] then
                (if s = ''Z'' \<or> s = ''N'' then ''Int''
                 else if s = ''R'' \<or> s = ''Q'' then ''Real'' else ty)
              else ty))"
    unfolding 5 n s1 [symmetric] Let_def t [symmetric] s2 [symmetric]
    by (simp add: let_record_def set_type_def n s1 t)
next
  assume b: "ttype (current toks (ps P)) \<in> {ASSUME, PROVE, HAVE, ASSERT} \<and>
    parse_statement (Suc n) fs toks P = Ok () P'"
  then show "var_types P' = var_types P"
    by (auto simp: parse_statement_def in_ps_def split: presult.splits)
qed

theorem let_overwrites_type_witness:
  "parse_statement 20 no_files let_twice
     \<lparr>ps = \<lparr>pos = 5, variables = {''x''}\<rparr>, assumptions = [], steps = [],
      claim = JNull, var_types = [''x'' \<mapsto> ''Int''], theorems = Map.empty, base_path = ''.'',
      imported_files = {}, errors = []\<rparr>
   = Ok () \<lparr>ps = \<lparr>pos = 7, variables = {''x''}\<rparr>, assumptions = [], steps = [],
      claim = JNull, var_types = [''x'' \<mapsto> ''Real''], theorems = Map.empty, base_path = ''.'',
      imported_files = {}, errors = []\<rparr> \<and>
   var_types \<lparr>ps = \<lparr>pos = 7, variables = {''x''}\<rparr>, assumptions = [], steps = [],
      claim = JNull, var_types = [''x'' \<mapsto> ''Real''], theorems = Map.empty, base_path = ''.'',
      imported_files = {}, errors = []\<rparr>
   = (var_types \<lparr>ps = \<lparr>pos = 5, variables = {''x''}\<rparr>, assumptions = [], steps = [],
      claim = JNull, var_types = [''x'' \<mapsto> ''Int''], theorems = Map.empty, base_path = ''.'',
      imported_files = {}, errors = []\<rparr>)(''x'' \<mapsto> ''Real'')"
proof -
  let ?P = "\<lparr>ps = \<lparr>pos = 5, variables = {''x''}\<rparr>, assumptions = [], steps = [],
      claim = JNull, var_types = [''x'' \<mapsto> ''Int''], theorems = Map.empty, base_path = ''.'',
      imported_files = {}, errors = []\<rparr>"
  let ?P' = "\<lparr>ps = \<lparr>pos = 7, variables = {''x''}\<rparr>, assumptions = [], steps = [],
      claim = JNull, var_types = [''x'' \<mapsto> ''Real''], theorems = Map.empty, base_path = ''.'',
      imported_files = {}, errors = []\<rparr>"
  have 1: "ttype (current let_twice (ps ?P)) = LET"
    by (simp add: current_def let_twice_def tk_def)
  have 2: "parse_statement (Suc 19) no_files let_twice ?P = Ok () ?P'"
    by (simp add: parser_eval let_twice_def cong: pbind_weak_cong in_ps_weak_cong)
  have n: "Suc 19 = (20::nat)" by simp
  have nm: "tvalue (current let_twice (advance (ps ?P))) = ''x''"
    by (simp add: parser_eval let_twice_def)
  have ty: "(let st1 = advance (advance (ps ?P));
               annotated = match let_twice st1 [COLON];
               ty = (if annotated \<and> ttype (current let_twice (advance st1)) = INT_KW
                     then ''Int'' else ''Real'');
               st2 = (if annotated then advance (advance st1) else st1);
               s = tvalue (current let_twice (advance st2))
           in if match let_twice st2 [IN] then
                (if s = ''Z'' \<or> s = ''N'' then ''Int''
                 else if s = ''R'' \<or> s = ''Q'' then ''Real'' else ty)
              else ty) = ''Real''"
    by (simp add: parser_eval let_twice_def)
  from let_overwrites_type [of let_twice ?P 19 no_files ?P'] 1 2
  have "var_types ?P' = (var_types ?P)(tvalue (current let_twice (advance (ps ?P))) \<mapsto>
          (let st1 = advance (advance (ps ?P));
               annotated = match let_twice st1 [COLON];
               ty = (if annotated \<and> ttype (current let_twice (advance st1)) = INT_KW
                     then ''Int'' else ''Real'');
               st2 = (if annotated then advance (advance st1) else st1);
               s = tvalue (current let_twice (advance st2))
           in if match let_twice st2 [IN] then
                (if s = ''Z'' \<or> s = ''N'' then ''Int''
                 else if s = ''R'' \<or> s = ''Q'' then ''Real'' else ty)
              else ty))"
    by blast
  then have 3: "var_types ?P' = (var_types ?P)(''x'' \<mapsto> ''Real'')"
    unfolding nm ty .
  from 2 3 show ?thesis unfolding n by (rule conjI)
qed

section \<open>The constraint of a set membership\<close>

text \<open>
  Claim C8. For the tokens \<^verbatim>\<open>let x in S\<close>, with \<^verbatim>\<open>+\<close> after the set or without: a statement
  that returns has appended to the assumptions exactly what the specification gives for
  that membership (\<open>membership_constraint\<close>), that is \<open>x \<ge> 0\<close> for \<^verbatim>\<open>N\<close>, \<open>x > 0\<close> for \<^verbatim>\<open>N+\<close>,
  \<^verbatim>\<open>Z+\<close>, \<^verbatim>\<open>R+\<close> and \<^verbatim>\<open>Q+\<close>, and nothing for \<^verbatim>\<open>R\<close>, \<^verbatim>\<open>Z\<close> and \<^verbatim>\<open>Q\<close>; and when no initialiser
  follows, the statement returns, with any fuel.
\<close>

theorem let_in_set:
  assumes "ttype (current toks (ps P)) = LET"
    and "ttype (current toks (advance (ps P))) = IDENT"
    and "ttype (current toks (advance (advance (ps P)))) = IN"
    and "ttype (current toks (advance (advance (advance (ps P))))) = SET"
    and "x = tvalue (current toks (advance (ps P)))"
    and "s = tvalue (current toks (advance (advance (advance (ps P)))))"
    and "positive = (ttype (current toks (advance (advance (advance (advance (ps P)))))) = PLUS)"
    and "after = (if positive then advance (advance (advance (advance (advance (ps P)))))
                  else advance (advance (advance (advance (ps P)))))"
  shows "(\<forall>P'. parse_statement (Suc n) fs toks P = Ok () P'
            \<longrightarrow> assumptions P' = assumptions P @ membership_constraint x s positive) \<and>
         (ttype (current toks after) \<noteq> EQ
            \<longrightarrow> (\<exists>P'. parse_statement (Suc n) fs toks P = Ok () P'))"
proof -
  let ?st1 = "advance (advance (ps P))"
  have 1: "expect toks (advance (ps P)) IDENT = Ok (current toks (advance (ps P))) ?st1"
    using assms(2) by (simp add: expect_def)
  have 2: "let_type_annotation toks ?st1 = Ok ''Real'' ?st1"
    using assms(3) by (simp add: let_type_annotation_def match_def)
  have 3: "let_set_membership toks ?st1 ''Real''
             = Ok (set_type s ''Real'', set_constraint s positive) after"
    using assms(3,4) unfolding assms(5-8)
    by (simp add: let_set_membership_def match_def Let_def)
  have c: "(case set_constraint s positive of
              None \<Rightarrow> []
            | Some op \<Rightarrow> [JObj [(''type'', JStr ''rel''), (''op'', JStr op),
                                (''lhs'', JObj [(''type'', JStr ''var''), (''name'', JStr x)]),
                                (''rhs'', JObj [(''type'', JStr ''num''), (''value'', JStr ''0'')])]])
           = membership_constraint x s positive"
    by (simp add: set_constraint_def membership_constraint_def rel_def var_def num_def)
  have r: "parse_statement (Suc n) fs toks P =
             in_ps (let_initialiser n toks after) (P\<lparr>ps := after\<rparr>)
               (\<lambda>u P4. Ok () (let_record x (set_type s ''Real'') (set_constraint s positive) P4))"
    using assms(1) 1 2 3
    by (cases "let_initialiser n toks after")
       (simp_all add: parse_statement_def parse_let_def in_ps_def assms(5))
  have a: "assumptions (let_record x ty (set_constraint s positive) Q)
             = assumptions Q @ membership_constraint x s positive" for ty Q
    using c by (simp add: let_record_def)
  show ?thesis
  proof (intro conjI allI impI)
    fix P'
    assume "parse_statement (Suc n) fs toks P = Ok () P'"
    with r show "assumptions P' = assumptions P @ membership_constraint x s positive"
      by (auto simp: in_ps_def a split: presult.splits)
  next
    assume "ttype (current toks after) \<noteq> EQ"
    then have "let_initialiser n toks after = Ok () after"
      by (simp add: let_initialiser_def match_def)
    with r show "\<exists>P'. parse_statement (Suc n) fs toks P = Ok () P'"
      by (simp add: in_ps_def)
  qed
qed

theorem let_in_set_witness:
  "parse_statement 20 no_files let_n_in_N (new_parser ''.'')
   = Ok () \<lparr>ps = \<lparr>pos = 4, variables = {''n''}\<rparr>,
            assumptions = [rel ''>='' (var ''n'') (num ''0'')], steps = [],
            claim = JNull, var_types = [''n'' \<mapsto> ''Int''], theorems = Map.empty, base_path = ''.'',
            imported_files = {}, errors = []\<rparr> \<and>
   [rel ''>='' (var ''n'') (num ''0'')] = [] @ membership_constraint ''n'' ''N'' False"
proof -
  let ?P = "new_parser ''.''"
  let ?P' = "\<lparr>ps = \<lparr>pos = 4, variables = {''n''}\<rparr>,
            assumptions = [rel ''>='' (var ''n'') (num ''0'')], steps = [],
            claim = JNull, var_types = [''n'' \<mapsto> ''Int''], theorems = Map.empty, base_path = ''.'',
            imported_files = {}, errors = []\<rparr>"
  have 1: "ttype (current let_n_in_N (ps ?P)) = LET"
    by (simp add: parser_eval let_n_in_N_def)
  have 2: "ttype (current let_n_in_N (advance (ps ?P))) = IDENT"
    by (simp add: parser_eval let_n_in_N_def)
  have 3: "ttype (current let_n_in_N (advance (advance (ps ?P)))) = IN"
    by (simp add: parser_eval let_n_in_N_def)
  have 4: "ttype (current let_n_in_N (advance (advance (advance (ps ?P))))) = SET"
    by (simp add: parser_eval let_n_in_N_def)
  have 5: "''n'' = tvalue (current let_n_in_N (advance (ps ?P)))"
    by (simp add: parser_eval let_n_in_N_def)
  have 6: "''N'' = tvalue (current let_n_in_N (advance (advance (advance (ps ?P)))))"
    by (simp add: parser_eval let_n_in_N_def)
  have 7: "False = (ttype (current let_n_in_N (advance (advance (advance (advance (ps ?P))))))
                      = PLUS)"
    by (simp add: parser_eval let_n_in_N_def)
  have 8: "advance (advance (advance (advance (ps ?P))))
             = (if False then advance (advance (advance (advance (advance (ps ?P)))))
                else advance (advance (advance (advance (ps ?P)))))"
    by simp
  have e: "parse_statement (Suc 19) no_files let_n_in_N ?P = Ok () ?P'"
    by (simp add: parser_eval let_n_in_N_def rel_def var_def num_def
             cong: pbind_weak_cong in_ps_weak_cong)
  have n: "Suc 19 = (20::nat)" by simp
  from let_in_set [OF 1 2 3 4 5 6 7 8, of 19 no_files] e
  have "assumptions ?P' = assumptions ?P @ membership_constraint ''n'' ''N'' False"
    by blast
  then have "[rel ''>='' (var ''n'') (num ''0'')] = [] @ membership_constraint ''n'' ''N'' False"
    by (simp add: new_parser_def)
  with e n show ?thesis by simp
qed

section \<open>Chained comparisons\<close>





end
